theory Spec2Isabelle
  imports Complex_Main
begin

section \<open>Float64 values and numpy's element-wise operations\<close>

text \<open>
  The cost formulas of \<^verbatim>\<open>run_analysis.py\<close> and \<^verbatim>\<open>run_comprehensive_analysis.py\<close>
  work on one-dimensional numpy arrays of float64. A float64 is modelled as a finite real
  or one of the three special values. Finite results of the cost formulas are exact reals:
  rounding, overflow of a finite result to infinity and the sign of zero are not modelled
  there. The subtraction of the sample extraction does round to float64, since the index
  selected depends on the ties that rounding creates. The special values
  arise exactly where IEEE 754 and numpy produce them from the operands: the logarithm of
  zero or of a negative number, a negative base under a fractional exponent, the root of a
  negative number, zero times infinity and infinity minus infinity. The functions are
  applied to arrays, as both scripts apply them; a Python scalar as an argument is not
  modelled.
\<close>

datatype fl = Fin real | PInf | NInf | NaN

text \<open>Python exceptions the modelled code can raise.\<close>

datatype error = ValueError | IndexError

text \<open>
  numpy's floating-point error categories (\<^verbatim>\<open>np.errstate\<close>): each operation reports the
  categories it hit; under the default error state every reported category becomes a
  \<^verbatim>\<open>RuntimeWarning\<close>, and the computation goes on.
\<close>

datatype fpe = Divide | Over | Invalid

fun is_fin :: "fl \<Rightarrow> bool" where
  "is_fin (Fin _) = True"
| "is_fin _ = False"

text \<open>\<open>fin_ge c v\<close>: the value is finite and at least \<open>c\<close>.\<close>

fun fin_ge :: "real \<Rightarrow> fl \<Rightarrow> bool" where
  "fin_ge c (Fin x) = (c \<le> x)"
| "fin_ge c _ = False"

fun flog2 :: "fl \<Rightarrow> fl" where
  "flog2 (Fin x) = (if 0 < x then Fin (log 2 x) else if x = 0 then NInf else NaN)"
| "flog2 PInf = PInf"
| "flog2 NInf = NaN"
| "flog2 NaN = NaN"

fun flog2_fpe :: "fl \<Rightarrow> fpe set" where
  "flog2_fpe (Fin x) = (if 0 < x then {} else if x = 0 then {Divide} else {Invalid})"
| "flog2_fpe PInf = {}"
| "flog2_fpe NInf = {Invalid}"
| "flog2_fpe NaN = {}"

fun fsqrt :: "fl \<Rightarrow> fl" where
  "fsqrt (Fin x) = (if 0 \<le> x then Fin (sqrt x) else NaN)"
| "fsqrt PInf = PInf"
| "fsqrt NInf = NaN"
| "fsqrt NaN = NaN"

fun fsqrt_fpe :: "fl \<Rightarrow> fpe set" where
  "fsqrt_fpe (Fin x) = (if 0 \<le> x then {} else {Invalid})"
| "fsqrt_fpe PInf = {}"
| "fsqrt_fpe NInf = {Invalid}"
| "fsqrt_fpe NaN = {}"

text \<open>
  \<^verbatim>\<open>x ** (2/3)\<close>: the exponent is the fixed Python scalar \<^verbatim>\<open>2/3\<close>, positive and not an
  integer, so a negative finite base gives NaN and both infinities give \<open>+inf\<close>.
\<close>

fun fpow_two_thirds :: "fl \<Rightarrow> fl" where
  "fpow_two_thirds (Fin x) = (if 0 \<le> x then Fin (x powr (2 / 3)) else NaN)"
| "fpow_two_thirds PInf = PInf"
| "fpow_two_thirds NInf = PInf"
| "fpow_two_thirds NaN = NaN"

fun fpow_two_thirds_fpe :: "fl \<Rightarrow> fpe set" where
  "fpow_two_thirds_fpe (Fin x) = (if 0 \<le> x then {} else {Invalid})"
| "fpow_two_thirds_fpe _ = {}"

fun fneg :: "fl \<Rightarrow> fl" where
  "fneg (Fin x) = Fin (- x)"
| "fneg PInf = NInf"
| "fneg NInf = PInf"
| "fneg NaN = NaN"

fun fmul :: "fl \<Rightarrow> fl \<Rightarrow> fl" where
  "fmul NaN _ = NaN"
| "fmul _ NaN = NaN"
| "fmul (Fin a) (Fin b) = Fin (a * b)"
| "fmul (Fin a) PInf = (if 0 < a then PInf else if a < 0 then NInf else NaN)"
| "fmul (Fin a) NInf = (if 0 < a then NInf else if a < 0 then PInf else NaN)"
| "fmul PInf (Fin b) = (if 0 < b then PInf else if b < 0 then NInf else NaN)"
| "fmul NInf (Fin b) = (if 0 < b then NInf else if b < 0 then PInf else NaN)"
| "fmul PInf PInf = PInf"
| "fmul PInf NInf = NInf"
| "fmul NInf PInf = NInf"
| "fmul NInf NInf = PInf"

text \<open>A product is invalid exactly when it is NaN and neither factor is.\<close>

definition fmul_fpe :: "fl \<Rightarrow> fl \<Rightarrow> fpe set" where
  "fmul_fpe a b = (if fmul a b = NaN \<and> a \<noteq> NaN \<and> b \<noteq> NaN then {Invalid} else {})"

fun fadd :: "fl \<Rightarrow> fl \<Rightarrow> fl" where
  "fadd NaN _ = NaN"
| "fadd _ NaN = NaN"
| "fadd (Fin a) (Fin b) = Fin (a + b)"
| "fadd (Fin a) PInf = PInf"
| "fadd (Fin a) NInf = NInf"
| "fadd PInf (Fin b) = PInf"
| "fadd NInf (Fin b) = NInf"
| "fadd PInf PInf = PInf"
| "fadd NInf NInf = NInf"
| "fadd PInf NInf = NaN"
| "fadd NInf PInf = NaN"

definition fadd_fpe :: "fl \<Rightarrow> fl \<Rightarrow> fpe set" where
  "fadd_fpe a b = (if fadd a b = NaN \<and> a \<noteq> NaN \<and> b \<noteq> NaN then {Invalid} else {})"

subsection \<open>Arrays, broadcasting and warnings\<close>

text \<open>
  A numpy computation either raises, or returns its value together with the set of
  floating-point error categories for which a warning was issued on the way.
\<close>

type_synonym 'a np = "error + ('a \<times> fpe set)"

definition then_np :: "'a np \<Rightarrow> ('a \<Rightarrow> 'b np) \<Rightarrow> 'b np" where
  "then_np c f =
     (case c of
        Inl e \<Rightarrow> Inl e
      | Inr (v, w) \<Rightarrow> (case f v of Inl e \<Rightarrow> Inl e | Inr (r, w') \<Rightarrow> Inr (r, w \<union> w')))"

text \<open>
  \<^verbatim>\<open>with np.errstate(divide='ignore', invalid='ignore')\<close>: inside the block the listed
  categories issue no warning.
\<close>

definition errstate_ignore :: "fpe set \<Rightarrow> 'a np \<Rightarrow> 'a np" where
  "errstate_ignore ign c = (case c of Inl e \<Rightarrow> Inl e | Inr (v, w) \<Rightarrow> Inr (v, w - ign))"

text \<open>A unary ufunc makes a new array, element by element, in input order.\<close>

definition ufunc1 :: "(fl \<Rightarrow> fl) \<Rightarrow> (fl \<Rightarrow> fpe set) \<Rightarrow> fl list \<Rightarrow> fl list np" where
  "ufunc1 f e xs = Inr (map f xs, (\<Union>x \<in> set xs. e x))"

text \<open>
  A binary ufunc on one-dimensional arrays: equal lengths pair up index by index, an array
  of length one is stretched to the other's length, and any other pair of lengths raises
  \<^verbatim>\<open>ValueError\<close> (operands could not be broadcast together).
\<close>

definition broadcast :: "fl list \<Rightarrow> fl list \<Rightarrow> error + (fl \<times> fl) list" where
  "broadcast xs ys =
     (if length xs = length ys then Inr (zip xs ys)
      else if length xs = 1 then Inr (map (\<lambda>y. (hd xs, y)) ys)
      else if length ys = 1 then Inr (map (\<lambda>x. (x, hd ys)) xs)
      else Inl ValueError)"

definition ufunc2 ::
  "(fl \<Rightarrow> fl \<Rightarrow> fl) \<Rightarrow> (fl \<Rightarrow> fl \<Rightarrow> fpe set) \<Rightarrow> fl list \<Rightarrow> fl list \<Rightarrow> fl list np" where
  "ufunc2 f e xs ys =
     (case broadcast xs ys of
        Inl err \<Rightarrow> Inl err
      | Inr ps \<Rightarrow> Inr (map (\<lambda>(x, y). f x y) ps, (\<Union>(x, y) \<in> set ps. e x y)))"

definition np_log2 :: "fl list \<Rightarrow> fl list np" where
  "np_log2 = ufunc1 flog2 flog2_fpe"

definition np_sqrt :: "fl list \<Rightarrow> fl list np" where
  "np_sqrt = ufunc1 fsqrt fsqrt_fpe"

definition np_pow_two_thirds :: "fl list \<Rightarrow> fl list np" where
  "np_pow_two_thirds = ufunc1 fpow_two_thirds fpow_two_thirds_fpe"

definition np_multiply :: "fl list \<Rightarrow> fl list \<Rightarrow> fl list np" where
  "np_multiply = ufunc2 fmul fmul_fpe"

definition np_add :: "fl list \<Rightarrow> fl list \<Rightarrow> fl list np" where
  "np_add = ufunc2 fadd fadd_fpe"

text \<open>\<^verbatim>\<open>np.isneginf(a)\<close>: the boolean mask of the positions holding \<open>-inf\<close>.\<close>

definition np_isneginf :: "fl list \<Rightarrow> bool list" where
  "np_isneginf xs = map (\<lambda>x. x = NInf) xs"

text \<open>\<^verbatim>\<open>a[mask] = v\<close> with a mask of \<open>a\<close>'s own length: the masked positions become \<open>v\<close>.\<close>

definition setitem_mask :: "fl list \<Rightarrow> bool list \<Rightarrow> fl \<Rightarrow> fl list" where
  "setitem_mask xs msk v = map (\<lambda>(x, b). if b then v else x) (zip xs msk)"

section \<open>The cost functions\<close>

text \<open>\<^verbatim>\<open>cost_dijkstra(n, m)\<close>: \<^verbatim>\<open>return m + n * np.log2(n)\<close>.\<close>

definition cost_dijkstra :: "fl list \<Rightarrow> fl list \<Rightarrow> fl list np" where
  "cost_dijkstra n m =
     then_np (np_log2 n) (\<lambda>lg.
     then_np (np_multiply n lg) (\<lambda>p.
     np_add m p))"

text \<open>
  \<^verbatim>\<open>cost_duan_et_al(n, m)\<close>: under \<^verbatim>\<open>np.errstate(divide='ignore', invalid='ignore')\<close>,
  \<^verbatim>\<open>log_val = np.log2(n)\<close>, then \<^verbatim>\<open>log_val[np.isneginf(log_val)] = 0\<close>, then
  \<^verbatim>\<open>return m * (log_val)**(2/3)\<close>. \<open>duan_log_val\<close> is \<^verbatim>\<open>log_val\<close> after the masked
  assignment.
\<close>

definition duan_log_val :: "fl list \<Rightarrow> fl list np" where
  "duan_log_val n =
     then_np (np_log2 n) (\<lambda>log_val.
     Inr (setitem_mask log_val (np_isneginf log_val) (Fin 0), {}))"

text \<open>One element of \<^verbatim>\<open>log_val\<close> after the masked assignment, from the element of \<open>n\<close>.\<close>

definition guarded_log :: "fl \<Rightarrow> fl" where
  "guarded_log x = (if flog2 x = NInf then Fin 0 else flog2 x)"

definition cost_duan_et_al :: "fl list \<Rightarrow> fl list \<Rightarrow> fl list np" where
  "cost_duan_et_al n m =
     errstate_ignore {Divide, Invalid}
       (then_np (duan_log_val n) (\<lambda>log_val.
        then_np (np_pow_two_thirds log_val) (\<lambda>p.
        np_multiply m p)))"

text \<open>\<^verbatim>\<open>cost_quantum_grover(n, m)\<close>: \<^verbatim>\<open>return np.sqrt(n) * m\<close>.\<close>

definition cost_quantum_grover :: "fl list \<Rightarrow> fl list \<Rightarrow> fl list np" where
  "cost_quantum_grover n m =
     then_np (np_sqrt n) (\<lambda>r.
     np_multiply r m)"

text \<open>\<^verbatim>\<open>cost_quantum_wesolowski(n, m, l)\<close>: \<^verbatim>\<open>return l * np.sqrt(m)\<close>; \<open>n\<close> is not used.\<close>

definition cost_quantum_wesolowski :: "fl list \<Rightarrow> fl list \<Rightarrow> fl list \<Rightarrow> fl list np" where
  "cost_quantum_wesolowski n m l =
     then_np (np_sqrt m) (\<lambda>r.
     np_multiply l r)"

section \<open>The size sweeps\<close>

text \<open>
  \<^verbatim>\<open>np.linspace(start, stop, num)\<close> with the endpoint included: a negative \<open>num\<close> raises
  \<^verbatim>\<open>ValueError\<close>; otherwise the \<open>i\<close>-th value is \<open>i * step + start\<close> with
  \<open>step = (stop - start) / (num - 1)\<close> (for \<open>num = 1\<close> there is no step and the only value
  is \<open>start\<close>), and for \<open>num > 1\<close> the last value is overwritten with \<open>stop\<close>.
\<close>

definition linspace :: "real \<Rightarrow> real \<Rightarrow> int \<Rightarrow> error + real list" where
  "linspace start stop num =
     (if num < 0 then Inl ValueError
      else
        let k = nat num;
            dv = k - 1;
            delta = stop - start;
            y = map (\<lambda>i. (if 0 < dv then real i * (delta / real dv) else real i * delta) + start)
                  [0..<k]
        in Inr (if 1 < k then y[k - 1 := stop] else y))"

text \<open>\<^verbatim>\<open>np.logspace(start, stop, num)\<close> is \<^verbatim>\<open>np.power(10.0, np.linspace(start, stop, num))\<close>.\<close>

definition logspace :: "real \<Rightarrow> real \<Rightarrow> int \<Rightarrow> fl list np" where
  "logspace start stop num =
     (case linspace start stop num of
        Inl e \<Rightarrow> Inl e
      | Inr y \<Rightarrow> Inr (map (\<lambda>v. Fin (10 powr v)) y, {}))"

text \<open>The sweeps of \<^verbatim>\<open>run_analysis.py\<close> (lines 30 and 80).\<close>

definition n_values :: "fl list np" where
  "n_values = logspace 3 9 100"

definition n_values_dense :: "fl list np" where
  "n_values_dense = logspace 3 5 100"

text \<open>The sweeps of \<^verbatim>\<open>run_comprehensive_analysis.py\<close> (lines 95 and 116).\<close>

definition n_vals :: "fl list np" where
  "n_vals = logspace 3 9 100"

definition n_vals_dense :: "fl list np" where
  "n_vals_dense = logspace 3 5 100"

section \<open>Sample extraction\<close>

text \<open>Float comparison: every comparison with NaN is false.\<close>

fun fl_less :: "fl \<Rightarrow> fl \<Rightarrow> bool" where
  "fl_less NaN _ = False"
| "fl_less _ NaN = False"
| "fl_less (Fin a) (Fin b) = (a < b)"
| "fl_less (Fin a) PInf = True"
| "fl_less (Fin a) NInf = False"
| "fl_less PInf _ = False"
| "fl_less NInf (Fin b) = True"
| "fl_less NInf PInf = True"
| "fl_less NInf NInf = False"

definition fl_le :: "fl \<Rightarrow> fl \<Rightarrow> bool" where
  "fl_le a b = (a \<noteq> NaN \<and> b \<noteq> NaN \<and> \<not> fl_less b a)"

fun fabs :: "fl \<Rightarrow> fl" where
  "fabs (Fin x) = Fin \<bar>x\<bar>"
| "fabs PInf = PInf"
| "fabs NInf = PInf"
| "fabs NaN = NaN"

text \<open>
  Rounding a real to float64 (IEEE 754 binary64, round to nearest, ties to even): the
  result is a multiple of the quantum \<open>2\<^sup>e\<^sup>-\<^sup>5\<^sup>2\<close>, where \<open>e\<close> is the binary exponent of
  the argument and at least \<open>-1022\<close>; a result of magnitude \<open>2\<^sup>1\<^sup>0\<^sup>2\<^sup>4\<close> or more overflows to
  the infinity of the argument's sign.
\<close>

definition rne :: "real \<Rightarrow> int" where
  "rne x =
     (let f = \<lfloor>x\<rfloor>; d = x - of_int f
      in if d < 1 / 2 then f else if 1 / 2 < d then f + 1 else if even f then f else f + 1)"

definition f64_quantum :: "real \<Rightarrow> real" where
  "f64_quantum x = 2 powr (of_int (max \<lfloor>log 2 \<bar>x\<bar>\<rfloor> (- 1022)) - 52)"

definition f64_round :: "real \<Rightarrow> fl" where
  "f64_round x =
     (if x = 0 then Fin 0
      else
        let r = f64_quantum x * of_int (rne (x / f64_quantum x))
        in if 2 ^ 1024 \<le> \<bar>r\<bar> then (if 0 < x then PInf else NInf) else Fin r)"

text \<open>
  Float subtraction: the difference of two finite values is rounded, and reports an
  overflow when the rounded result is infinite; with a special operand it is the sum with
  the negated operand.
\<close>

fun fsub :: "fl \<Rightarrow> fl \<Rightarrow> fl" where
  "fsub (Fin a) (Fin b) = f64_round (a - b)"
| "fsub a b = fadd a (fneg b)"

fun fsub_fpe :: "fl \<Rightarrow> fl \<Rightarrow> fpe set" where
  "fsub_fpe (Fin a) (Fin b) = (if is_fin (f64_round (a - b)) then {} else {Over})"
| "fsub_fpe a b = fadd_fpe a (fneg b)"

text \<open>\<^verbatim>\<open>a - p\<close> and \<^verbatim>\<open>np.abs(a)\<close> for an array \<open>a\<close> and a Python float \<open>p\<close>.\<close>

definition np_subtract_scalar :: "fl list \<Rightarrow> fl \<Rightarrow> fl list np" where
  "np_subtract_scalar xs p = ufunc1 (\<lambda>x. fsub x p) (\<lambda>x. fsub_fpe x p) xs"

definition np_abs :: "fl list \<Rightarrow> fl list np" where
  "np_abs = ufunc1 fabs (\<lambda>x. {})"

text \<open>One element of \<^verbatim>\<open>np.abs(n_values - n_point)\<close>: the absolute difference as computed.\<close>

definition abs_diff :: "fl \<Rightarrow> fl \<Rightarrow> fl" where
  "abs_diff x p = fabs (fsub x p)"

text \<open>
  \<^verbatim>\<open>a.max()\<close> and \<^verbatim>\<open>a.min()\<close>: \<^verbatim>\<open>ValueError\<close> on an empty array; a NaN anywhere makes
  the result NaN.
\<close>

definition fmax :: "fl \<Rightarrow> fl \<Rightarrow> fl" where
  "fmax a b = (if a = NaN \<or> b = NaN then NaN else if fl_less a b then b else a)"

definition fmin :: "fl \<Rightarrow> fl \<Rightarrow> fl" where
  "fmin a b = (if a = NaN \<or> b = NaN then NaN else if fl_less b a then b else a)"

definition np_max :: "fl list \<Rightarrow> fl np" where
  "np_max xs = (case xs of [] \<Rightarrow> Inl ValueError | x # r \<Rightarrow> Inr (foldl fmax x r, {}))"

definition np_min :: "fl list \<Rightarrow> fl np" where
  "np_min xs = (case xs of [] \<Rightarrow> Inl ValueError | x # r \<Rightarrow> Inr (foldl fmin x r, {}))"

text \<open>
  \<^verbatim>\<open>np.argmin(a)\<close>: \<^verbatim>\<open>ValueError\<close> on an empty array; otherwise one pass from the left
  that keeps the current minimum \<open>mp\<close> and its index \<open>mi\<close>, moves to position \<open>i\<close> only
  when \<open>a[i] >= mp\<close> is false, and stops at the first NaN. So the first occurrence of the
  minimum wins, and a NaN counts as the minimum.
\<close>

fun argmin_loop :: "fl \<Rightarrow> nat \<Rightarrow> nat \<Rightarrow> fl list \<Rightarrow> nat" where
  "argmin_loop mp mi i [] = mi"
| "argmin_loop mp mi i (x # xs) =
     (if mp = NaN then mi
      else if \<not> fl_le mp x then argmin_loop x i (Suc i) xs
      else argmin_loop mp mi (Suc i) xs)"

definition np_argmin :: "fl list \<Rightarrow> nat np" where
  "np_argmin xs = (case xs of [] \<Rightarrow> Inl ValueError | x # r \<Rightarrow> Inr (argmin_loop x 0 1 r, {}))"

text \<open>
  The nearest point of a sweep, \<^verbatim>\<open>idx = np.argmin(np.abs(n_values - n_point))\<close>, as both
  scripts compute it.
\<close>

definition nearest_index :: "fl list \<Rightarrow> fl \<Rightarrow> nat np" where
  "nearest_index sweep n_point =
     then_np (np_subtract_scalar sweep n_point) (\<lambda>d.
     then_np (np_abs d) (\<lambda>a.
     np_argmin a))"

text \<open>
  The sample loop's body in \<^verbatim>\<open>run_and_plot_scenario\<close>:
  \<^verbatim>\<open>if n_point > n_values.max() or n_point < n_values.min(): continue\<close>, then the nearest
  index. \<open>None\<close> is the skipped point. Python's \<^verbatim>\<open>or\<close> does not evaluate its right
  operand when the left one is true.
\<close>

definition sample_index :: "fl list \<Rightarrow> fl \<Rightarrow> nat option np" where
  "sample_index sweep n_point =
     then_np (np_max sweep) (\<lambda>mx.
       if fl_less mx n_point then Inr (None, {})
       else
         then_np (np_min sweep) (\<lambda>mn.
           if fl_less n_point mn then Inr (None, {})
           else then_np (nearest_index sweep n_point) (\<lambda>idx. Inr (Some idx, {}))))"

text \<open>
  The rows of the sample table. \<^verbatim>\<open>a[idx]\<close> raises \<^verbatim>\<open>IndexError\<close> out of range; a row
  is \<^verbatim>\<open>n_values[idx]\<close> and then \<^verbatim>\<open>costs[name][idx]\<close> for each name in insertion order.
\<close>

definition getitem :: "fl list \<Rightarrow> nat \<Rightarrow> fl np" where
  "getitem a idx = (if idx < length a then Inr (a ! idx, {}) else Inl IndexError)"

fun row_costs :: "(string \<times> fl list) list \<Rightarrow> nat \<Rightarrow> fl list np" where
  "row_costs [] idx = Inr ([], {})"
| "row_costs ((name, series) # rest) idx =
     then_np (getitem series idx) (\<lambda>c.
     then_np (row_costs rest idx) (\<lambda>cs.
     Inr (c # cs, {})))"

definition sample_row :: "fl list \<Rightarrow> (string \<times> fl list) list \<Rightarrow> nat \<Rightarrow> (fl \<times> fl list) np" where
  "sample_row sweep costs idx =
     then_np (getitem sweep idx) (\<lambda>nv.
     then_np (row_costs costs idx) (\<lambda>cs.
     Inr ((nv, cs), {})))"

text \<open>
  The sample loop of \<^verbatim>\<open>run_analysis.py\<close> (lines 53 to 55 and 94 to 96): one row for every
  representative size, at its nearest index.
\<close>

fun nearest_rows ::
  "fl list \<Rightarrow> (string \<times> fl list) list \<Rightarrow> fl list \<Rightarrow> (fl \<times> fl list) list np" where
  "nearest_rows sweep costs [] = Inr ([], {})"
| "nearest_rows sweep costs (n_point # rest) =
     then_np (nearest_index sweep n_point) (\<lambda>idx.
     then_np (sample_row sweep costs idx) (\<lambda>row.
     then_np (nearest_rows sweep costs rest) (\<lambda>rows.
     Inr (row # rows, {}))))"

text \<open>
  The sample loop of \<^verbatim>\<open>run_and_plot_scenario\<close> (lines 57 to 63): a skipped size gives
  no row.
\<close>

fun sample_rows ::
  "fl list \<Rightarrow> (string \<times> fl list) list \<Rightarrow> fl list \<Rightarrow> (fl \<times> fl list) list np" where
  "sample_rows sweep costs [] = Inr ([], {})"
| "sample_rows sweep costs (n_point # rest) =
     then_np (sample_index sweep n_point) (\<lambda>sel.
       case sel of
         None \<Rightarrow> sample_rows sweep costs rest
       | Some idx \<Rightarrow>
           then_np (sample_row sweep costs idx) (\<lambda>row.
           then_np (sample_rows sweep costs rest) (\<lambda>rows.
           Inr (row # rows, {}))))"

section \<open>The scenarios\<close>

text \<open>
  The scenario runs of the two scripts: the two inline scenarios of \<^verbatim>\<open>run_analysis.py\<close>
  and the four calls of \<^verbatim>\<open>run_and_plot_scenario\<close> in
  \<^verbatim>\<open>run_comprehensive_analysis.py\<close>.
\<close>

datatype script = Run_analysis | Run_comprehensive_analysis

datatype scenario =
  Sparse_graphs | Dense_graphs
| Sparse_short_path | Sparse_long_path | Dense_short_path | Dense_long_path

fun script_of :: "scenario \<Rightarrow> script" where
  "script_of Sparse_graphs = Run_analysis"
| "script_of Dense_graphs = Run_analysis"
| "script_of _ = Run_comprehensive_analysis"

text \<open>The \<^verbatim>\<open>np.logspace\<close> arguments of each scenario's sweep.\<close>

fun sweep_args :: "scenario \<Rightarrow> real \<times> real \<times> int" where
  "sweep_args Sparse_graphs = (3, 9, 100)"
| "sweep_args Dense_graphs = (3, 5, 100)"
| "sweep_args Sparse_short_path = (3, 9, 100)"
| "sweep_args Sparse_long_path = (3, 9, 100)"
| "sweep_args Dense_short_path = (3, 5, 100)"
| "sweep_args Dense_long_path = (3, 5, 100)"

text \<open>
  The representative sizes of each sample loop: \<^verbatim>\<open>[1e3, 1e6, 1e9]\<close> and
  \<^verbatim>\<open>[1e3, 1e4, 1e5]\<close> in \<^verbatim>\<open>run_analysis.py\<close> (lines 53 and 94), and
  \<^verbatim>\<open>[1e4, 1e6, 1e8]\<close> in \<^verbatim>\<open>run_and_plot_scenario\<close> (line 57), whatever the sweep.
\<close>

fun n_points :: "scenario \<Rightarrow> real list" where
  "n_points Sparse_graphs = [10 ^ 3, 10 ^ 6, 10 ^ 9]"
| "n_points Dense_graphs = [10 ^ 3, 10 ^ 4, 10 ^ 5]"
| "n_points _ = [10 ^ 4, 10 ^ 6, 10 ^ 8]"

text \<open>
  The dictionary literal of the three cost series, the same in both scripts. A Python
  dictionary keeps insertion order, so it is an association list.
\<close>

definition cost_dict :: "fl list \<Rightarrow> fl list \<Rightarrow> (string \<times> fl list) list np" where
  "cost_dict n m =
     then_np (cost_dijkstra n m) (\<lambda>d.
     then_np (cost_duan_et_al n m) (\<lambda>u.
     then_np (cost_quantum_grover n m) (\<lambda>g.
     Inr ([(''Dijkstra'', d), (''Duan et al.'', u), (''Grover SSSP'', g)], {}))))"

text \<open>
  The cost computation of \<^verbatim>\<open>run_and_plot_scenario(..., n_values, m_func, l_func=None)\<close>:
  \<^verbatim>\<open>m_values = m_func(n_values)\<close>, \<^verbatim>\<open>l_values = l_func(n_values) if l_func else None\<close>,
  the dictionary of three series, and the fourth series when \<^verbatim>\<open>l_values\<close> is not
  \<^verbatim>\<open>None\<close>.
\<close>

definition scenario_costs ::
  "fl list \<Rightarrow> (fl list \<Rightarrow> fl list np) \<Rightarrow> (fl list \<Rightarrow> fl list np) option
     \<Rightarrow> (string \<times> fl list) list np" where
  "scenario_costs sweep m_func l_func =
     then_np (m_func sweep) (\<lambda>m_values.
     then_np (case l_func of
                None \<Rightarrow> Inr (None, {})
              | Some f \<Rightarrow> then_np (f sweep) (\<lambda>l. Inr (Some l, {}))) (\<lambda>l_values.
     then_np (cost_dict sweep m_values) (\<lambda>costs.
     case l_values of
       None \<Rightarrow> Inr (costs, {})
     | Some l \<Rightarrow>
         then_np (cost_quantum_wesolowski sweep m_values l) (\<lambda>w.
         Inr (costs @ [(''Wesolowski et al.'', w)], {})))))"

text \<open>
  The edge-count and path-length functions of the scenarios: \<^verbatim>\<open>10 * n\<close>,
  \<^verbatim>\<open>n**2 / 100\<close>, \<^verbatim>\<open>np.log2(n)**2\<close> and \<^verbatim>\<open>n / 10\<close>. Dividing by a positive Python
  integer keeps the special values.
\<close>

fun fdiv_pos :: "real \<Rightarrow> fl \<Rightarrow> fl" where
  "fdiv_pos c (Fin x) = Fin (x / c)"
| "fdiv_pos c v = v"

definition np_square :: "fl list \<Rightarrow> fl list np" where
  "np_square = ufunc1 (\<lambda>x. fmul x x) (\<lambda>x. fmul_fpe x x)"

definition m_sparse :: "fl list \<Rightarrow> fl list np" where
  "m_sparse n = ufunc1 (fmul (Fin 10)) (fmul_fpe (Fin 10)) n"

definition m_dense :: "fl list \<Rightarrow> fl list np" where
  "m_dense n = then_np (np_square n) (\<lambda>sq. ufunc1 (fdiv_pos 100) (\<lambda>x. {}) sq)"

definition l_short :: "fl list \<Rightarrow> fl list np" where
  "l_short n = then_np (np_log2 n) (\<lambda>lg. np_square lg)"

definition l_long :: "fl list \<Rightarrow> fl list np" where
  "l_long n = ufunc1 (fdiv_pos 10) (\<lambda>x. {}) n"

text \<open>
  \<^verbatim>\<open>run_and_plot_scenario\<close> without its printing and plotting: the cost series and the
  rows of the sample table for the representative sizes \<^verbatim>\<open>[1e4, 1e6, 1e8]\<close>.
\<close>

definition run_and_plot_scenario ::
  "fl list \<Rightarrow> (fl list \<Rightarrow> fl list np) \<Rightarrow> (fl list \<Rightarrow> fl list np) option
     \<Rightarrow> ((string \<times> fl list) list \<times> (fl \<times> fl list) list) np" where
  "run_and_plot_scenario sweep m_func l_func =
     then_np (scenario_costs sweep m_func l_func) (\<lambda>costs.
     then_np (sample_rows sweep costs [Fin (10 ^ 4), Fin (10 ^ 6), Fin (10 ^ 8)]) (\<lambda>rows.
     Inr ((costs, rows), {})))"

text \<open>
  The edge-count function, the path-length function and the whole run of each scenario:
  the sweep, then the cost series and the sample rows. The two scenarios of
  \<^verbatim>\<open>run_analysis.py\<close> have no path-length function and no range guard in their sample
  loops.
\<close>

fun m_func_of :: "scenario \<Rightarrow> fl list \<Rightarrow> fl list np" where
  "m_func_of Sparse_graphs = m_sparse"
| "m_func_of Dense_graphs = m_dense"
| "m_func_of Sparse_short_path = m_sparse"
| "m_func_of Sparse_long_path = m_sparse"
| "m_func_of Dense_short_path = m_dense"
| "m_func_of Dense_long_path = m_dense"

fun l_func_of :: "scenario \<Rightarrow> (fl list \<Rightarrow> fl list np) option" where
  "l_func_of Sparse_graphs = None"
| "l_func_of Dense_graphs = None"
| "l_func_of Sparse_short_path = Some l_short"
| "l_func_of Sparse_long_path = Some l_long"
| "l_func_of Dense_short_path = Some l_short"
| "l_func_of Dense_long_path = Some l_long"

definition scenario_sweep :: "scenario \<Rightarrow> fl list np" where
  "scenario_sweep s = (case sweep_args s of (lo, hi, k) \<Rightarrow> logspace lo hi k)"

definition scenario_run ::
  "scenario \<Rightarrow> ((string \<times> fl list) list \<times> (fl \<times> fl list) list) np" where
  "scenario_run s =
     then_np (scenario_sweep s) (\<lambda>sweep.
       case script_of s of
         Run_analysis \<Rightarrow>
           then_np (m_func_of s sweep) (\<lambda>m.
           then_np (cost_dict sweep m) (\<lambda>costs.
           then_np (nearest_rows sweep costs (map Fin (n_points s))) (\<lambda>rows.
           Inr ((costs, rows), {}))))
       | Run_comprehensive_analysis \<Rightarrow>
           run_and_plot_scenario sweep (m_func_of s) (l_func_of s))"

section \<open>The cost functions on a store of arrays\<close>

text \<open>
  numpy arrays are mutable objects, and \<^verbatim>\<open>log_val[...] = 0\<close> writes into one. Here the
  cost functions run on an explicit state: the arrays by address (every address below
  \<open>nxt\<close> is allocated), the warning categories issued so far, and the categories the
  current \<^verbatim>\<open>np.errstate\<close> ignores. A function takes the addresses of its arguments and
  returns the address of its result, or the exception, together with the state it leaves.
\<close>

record pystate =
  arrays :: "nat \<Rightarrow> fl list"
  nxt :: nat
  warned :: "fpe set"
  ignored :: "fpe set"

type_synonym 'a st = "pystate \<Rightarrow> (error + 'a) \<times> pystate"

definition st_bind :: "'a st \<Rightarrow> ('a \<Rightarrow> 'b st) \<Rightarrow> 'b st" where
  "st_bind c f s = (case c s of (Inl e, s') \<Rightarrow> (Inl e, s') | (Inr v, s') \<Rightarrow> f v s')"

text \<open>
  A ufunc call: an exception leaves the state as it is; a result goes into a fresh array,
  and the categories it reported are issued as warnings unless ignored.
\<close>

definition st_new :: "fl list np \<Rightarrow> nat st" where
  "st_new c s =
     (case c of
        Inl e \<Rightarrow> (Inl e, s)
      | Inr (xs, w) \<Rightarrow>
          (Inr (nxt s),
           s\<lparr>arrays := (arrays s)(nxt s := xs), nxt := Suc (nxt s),
             warned := warned s \<union> (w - ignored s)\<rparr>))"

definition st_ufunc1 :: "(fl list \<Rightarrow> fl list np) \<Rightarrow> nat \<Rightarrow> nat st" where
  "st_ufunc1 f a s = st_new (f (arrays s a)) s"

definition st_ufunc2 :: "(fl list \<Rightarrow> fl list \<Rightarrow> fl list np) \<Rightarrow> nat \<Rightarrow> nat \<Rightarrow> nat st" where
  "st_ufunc2 f a b s = st_new (f (arrays s a) (arrays s b)) s"

text \<open>\<^verbatim>\<open>a[np.isneginf(a)] = 0\<close>: the one write into an existing array.\<close>

definition st_zero_neginf :: "nat \<Rightarrow> unit st" where
  "st_zero_neginf a s =
     (Inr (),
      s\<lparr>arrays := (arrays s)(a := setitem_mask (arrays s a) (np_isneginf (arrays s a)) (Fin 0))\<rparr>)"

text \<open>
  \<^verbatim>\<open>with np.errstate(...)\<close>: the categories are ignored inside the block, and the previous
  error state is restored when the block is left, also by an exception.
\<close>

definition st_errstate :: "fpe set \<Rightarrow> 'a st \<Rightarrow> 'a st" where
  "st_errstate ign body s =
     (case body (s\<lparr>ignored := ignored s \<union> ign\<rparr>) of
        (r, s') \<Rightarrow> (r, s'\<lparr>ignored := ignored s\<rparr>))"

definition st_cost_dijkstra :: "nat \<Rightarrow> nat \<Rightarrow> nat st" where
  "st_cost_dijkstra n m =
     st_bind (st_ufunc1 np_log2 n) (\<lambda>lg.
     st_bind (st_ufunc2 np_multiply n lg) (\<lambda>p.
     st_ufunc2 np_add m p))"

definition st_cost_duan_et_al :: "nat \<Rightarrow> nat \<Rightarrow> nat st" where
  "st_cost_duan_et_al n m =
     st_errstate {Divide, Invalid}
       (st_bind (st_ufunc1 np_log2 n) (\<lambda>log_val.
        st_bind (st_zero_neginf log_val) (\<lambda>_.
        st_bind (st_ufunc1 np_pow_two_thirds log_val) (\<lambda>p.
        st_ufunc2 np_multiply m p))))"

definition st_cost_quantum_grover :: "nat \<Rightarrow> nat \<Rightarrow> nat st" where
  "st_cost_quantum_grover n m =
     st_bind (st_ufunc1 np_sqrt n) (\<lambda>r.
     st_ufunc2 np_multiply r m)"

definition st_cost_quantum_wesolowski :: "nat \<Rightarrow> nat \<Rightarrow> nat \<Rightarrow> nat st" where
  "st_cost_quantum_wesolowski n m l =
     st_bind (st_ufunc1 np_sqrt m) (\<lambda>r.
     st_ufunc2 np_multiply l r)"

section \<open>Properties of the cost functions\<close>

lemma then_np_Inr: "then_np (Inr (v, w)) f = (case f v of Inl e \<Rightarrow> Inl e | Inr (r, w') \<Rightarrow> Inr (r, w \<union> w'))"
  by (simp add: then_np_def)

lemma ufunc1_Fin:
  assumes "\<forall>x\<in>set xs. f (Fin x) = Fin (g x) \<and> e (Fin x) = {}"
  shows "ufunc1 f e (map Fin xs) = Inr (map (\<lambda>x. Fin (g x)) xs, {})"
  using assms by (simp add: ufunc1_def)

lemma zip_map_Fin: "zip (map Fin xs) (map Fin ys) = map (\<lambda>(x, y). (Fin x, Fin y)) (zip xs ys)"
  by (induction xs arbitrary: ys) (auto simp: zip_Cons1 split: list.splits)

lemma ufunc2_Fin:
  assumes "length xs = length ys"
    and "\<forall>(x, y)\<in>set (zip xs ys). f (Fin x) (Fin y) = Fin (g x y) \<and> e (Fin x) (Fin y) = {}"
  shows "ufunc2 f e (map Fin xs) (map Fin ys) = Inr (map (\<lambda>(x, y). Fin (g x y)) (zip xs ys), {})"
  using assms by (auto simp: ufunc2_def broadcast_def zip_map_Fin split_def)

lemma np_log2_Fin: "\<forall>x\<in>set xs. 0 < x \<Longrightarrow> np_log2 (map Fin xs) = Inr (map (\<lambda>x. Fin (log 2 x)) xs, {})"
  unfolding np_log2_def by (rule ufunc1_Fin) simp

lemma np_multiply_Fin: "length xs = length ys \<Longrightarrow>
  np_multiply (map Fin xs) (map Fin ys) = Inr (map (\<lambda>(x, y). Fin (x * y)) (zip xs ys), {})"
  unfolding np_multiply_def by (rule ufunc2_Fin) (auto simp: fmul_fpe_def)

lemma np_add_Fin: "length xs = length ys \<Longrightarrow>
  np_add (map Fin xs) (map Fin ys) = Inr (map (\<lambda>(x, y). Fin (x + y)) (zip xs ys), {})"
  unfolding np_add_def by (rule ufunc2_Fin) (auto simp: fadd_fpe_def)

lemma cost_dijkstra_Fin:
  assumes "length ms = length ns" and "\<forall>x\<in>set ns. 1 \<le> x"
  shows "cost_dijkstra (map Fin ns) (map Fin ms)
         = Inr (map (\<lambda>(nv, mv). Fin (mv + nv * log 2 nv)) (zip ns ms), {})"
proof -
  have pos: "\<forall>x\<in>set ns. 0 < x" using assms(2) by force
  have lg: "np_log2 (map Fin ns) = Inr (map Fin (map (log 2) ns), {})"
    using np_log2_Fin [OF pos] by simp
  have mul: "np_multiply (map Fin ns) (map Fin (map (log 2) ns))
             = Inr (map Fin (map (\<lambda>x. x * log 2 x) ns), {})"
    using np_multiply_Fin [of ns "map (log 2) ns"]
    by (simp add: zip_map2 zip_same_conv_map comp_def)
  have "zip ms (map (\<lambda>x. x * log 2 x) ns) = map (\<lambda>(nv, mv). (mv, nv * log 2 nv)) (zip ns ms)"
    using assms(1) by (induction ms ns rule: list_induct2) simp_all
  then have add: "np_add (map Fin ms) (map Fin (map (\<lambda>x. x * log 2 x) ns))
             = Inr (map (\<lambda>(nv, mv). Fin (mv + nv * log 2 nv)) (zip ns ms), {})"
    using assms(1) np_add_Fin [of ms "map (\<lambda>x. x * log 2 x) ns"]
    by (simp add: comp_def split_def)
  show ?thesis
    unfolding cost_dijkstra_def lg then_np_Inr mul add by simp
qed

text \<open>
  C2: for equal-length sequences of finite values with every \<open>n[i] \<ge> 1\<close>,
  \<open>cost_dijkstra\<close> returns, without raising or warning, the sequence of the same length
  whose \<open>i\<close>-th element is \<open>m[i] + n[i] * log2(n[i])\<close>, in input order; at \<open>n = 1\<close>,
  \<open>m = 0\<close> it returns exactly \<open>0\<close>.
\<close>

theorem cost_dijkstra_formula:
  assumes "length ms = length ns" and "\<forall>x\<in>set ns. 1 \<le> x"
  shows "cost_dijkstra (map Fin ns) (map Fin ms)
           = Inr (map (\<lambda>(nv, mv). Fin (mv + nv * log 2 nv)) (zip ns ms), {})
         \<and> length (map (\<lambda>(nv, mv). Fin (mv + nv * log 2 nv)) (zip ns ms)) = length ns"
  using assms by (simp add: cost_dijkstra_Fin)

theorem cost_dijkstra_formula_witness:
  "cost_dijkstra [Fin 1] [Fin 0] = Inr ([Fin 0], {})"
  using cost_dijkstra_formula [of "[0]" "[1]"] by simp

lemma np_sqrt_Fin: "\<forall>x\<in>set xs. 0 \<le> x \<Longrightarrow> np_sqrt (map Fin xs) = Inr (map (\<lambda>x. Fin (sqrt x)) xs, {})"
  unfolding np_sqrt_def by (rule ufunc1_Fin) simp

lemma ufunc2_same_length:
  "length xs = length ys \<Longrightarrow>
   ufunc2 f e xs ys = Inr (map (\<lambda>(x, y). f x y) (zip xs ys), (\<Union>(x, y) \<in> set (zip xs ys). e x y))"
  by (simp add: ufunc2_def broadcast_def)

lemma flog2_fpe_subset: "flog2_fpe x \<subseteq> {Divide, Invalid}"
  by (cases x) auto

lemma fpow_two_thirds_fpe_subset: "fpow_two_thirds_fpe x \<subseteq> {Divide, Invalid}"
  by (cases x) auto

lemma fmul_fpe_subset: "fmul_fpe x y \<subseteq> {Divide, Invalid}"
  by (simp add: fmul_fpe_def)

lemma setitem_isneginf: "setitem_mask xs (np_isneginf xs) v = map (\<lambda>x. if x = NInf then v else x) xs"
  by (simp add: setitem_mask_def np_isneginf_def zip_map2 zip_same_conv_map comp_def)

lemma duan_log_val_eq:
  "duan_log_val n = Inr (map guarded_log n, (\<Union>x \<in> set n. flog2_fpe x))"
  by (simp add: duan_log_val_def np_log2_def ufunc1_def then_np_Inr setitem_isneginf
      guarded_log_def comp_def)

lemma cost_duan_et_al_eq:
  assumes "length m = length n"
  shows "cost_duan_et_al n m
         = Inr (map (\<lambda>(mv, nv). fmul mv (fpow_two_thirds (guarded_log nv))) (zip m n), {})"
proof -
  have "zip m (map (\<lambda>x. fpow_two_thirds (guarded_log x)) n)
        = map (\<lambda>(mv, nv). (mv, fpow_two_thirds (guarded_log nv))) (zip m n)"
    using assms by (induction m n rule: list_induct2) simp_all
  then show ?thesis
    using assms
    by (simp add: cost_duan_et_al_def duan_log_val_eq then_np_Inr np_pow_two_thirds_def
        ufunc1_def np_multiply_def ufunc2_same_length errstate_ignore_def comp_def split_def
        Diff_eq_empty_iff UN_subset_iff flog2_fpe_subset fpow_two_thirds_fpe_subset
        fmul_fpe_subset del: subset_insertI2)
qed

text \<open>
  C8: \<open>cost_duan_et_al\<close> at a position where \<open>n\<close> is \<open>1\<close> and \<open>m\<close> is any finite value
  \<open>\<ge> 0\<close> returns \<open>0\<close> there (not NaN, not an infinity), without raising or warning.
\<close>

theorem cost_duan_et_al_at_one:
  assumes "length m = length n" and "i < length n" and "n ! i = Fin 1" and "m ! i = Fin x"
    and "0 \<le> x"
  shows "\<exists>r. cost_duan_et_al n m = Inr (r, {}) \<and> length r = length n \<and> r ! i = Fin 0"
  using assms by (simp add: cost_duan_et_al_eq guarded_log_def)

theorem cost_duan_et_al_at_one_witness:
  "\<exists>r. cost_duan_et_al [Fin 1000, Fin 1] [Fin 10000, Fin 10] = Inr (r, {}) \<and> length r = 2 \<and> r ! 1 = Fin 0"
  using cost_duan_et_al_at_one [of "[Fin 10000, Fin 10]" "[Fin 1000, Fin 1]" 1 10]
  by (simp add: numeral_2_eq_2)

lemma fin_ge_list:
  "list_all (fin_ge c) xs \<Longrightarrow> \<exists>rs. xs = map Fin rs \<and> (\<forall>x\<in>set rs. c \<le> x)"
proof (induction xs)
  case Nil
  then show ?case by simp
next
  case (Cons a xs)
  then obtain rs where rs: "xs = map Fin rs" "\<forall>x\<in>set rs. c \<le> x" by auto
  from Cons.prems obtain r where "a = Fin r" "c \<le> r" by (cases a) auto
  with rs have "a # xs = map Fin (r # rs) \<and> (\<forall>x\<in>set (r # rs). c \<le> x)" by simp
  then show ?case by (rule exI)
qed

lemma cost_dijkstra_returns:
  "length m = length n \<Longrightarrow> \<exists>r w. cost_dijkstra n m = Inr (r, w)"
  by (simp add: cost_dijkstra_def np_log2_def ufunc1_def then_np_Inr np_multiply_def
      np_add_def ufunc2_same_length)

lemma cost_quantum_grover_Fin:
  assumes "length ms = length ns" and "\<forall>x\<in>set ns. 0 \<le> x"
  shows "cost_quantum_grover (map Fin ns) (map Fin ms)
         = Inr (map (\<lambda>(nv, mv). Fin (sqrt nv * mv)) (zip ns ms), {})"
proof -
  have rt: "np_sqrt (map Fin ns) = Inr (map Fin (map sqrt ns), {})"
    using np_sqrt_Fin [OF assms(2)] by simp
  have "zip (map sqrt ns) ms = map (\<lambda>(nv, mv). (sqrt nv, mv)) (zip ns ms)"
    using assms(1) by (induction ms ns rule: list_induct2) simp_all
  then have mul: "np_multiply (map Fin (map sqrt ns)) (map Fin ms)
             = Inr (map (\<lambda>(nv, mv). Fin (sqrt nv * mv)) (zip ns ms), {})"
    using assms(1) np_multiply_Fin [of "map sqrt ns" ms]
    by (simp add: comp_def split_def)
  show ?thesis
    unfolding cost_quantum_grover_def rt then_np_Inr mul by simp
qed

lemma cost_quantum_wesolowski_Fin:
  assumes "length ls = length ms" and "\<forall>x\<in>set ms. 0 \<le> x"
  shows "cost_quantum_wesolowski n (map Fin ms) (map Fin ls)
         = Inr (map (\<lambda>(lv, mv). Fin (lv * sqrt mv)) (zip ls ms), {})"
proof -
  have rt: "np_sqrt (map Fin ms) = Inr (map Fin (map sqrt ms), {})"
    using np_sqrt_Fin [OF assms(2)] by simp
  have "zip ls (map sqrt ms) = map (\<lambda>(lv, mv). (lv, sqrt mv)) (zip ls ms)"
    using assms(1) by (induction ls ms rule: list_induct2) simp_all
  then have mul: "np_multiply (map Fin ls) (map Fin (map sqrt ms))
             = Inr (map (\<lambda>(lv, mv). Fin (lv * sqrt mv)) (zip ls ms), {})"
    using assms(1) np_multiply_Fin [of ls "map sqrt ms"]
    by (simp add: comp_def split_def)
  show ?thesis
    unfolding cost_quantum_wesolowski_def rt then_np_Inr mul by simp
qed

text \<open>
  C9: for sequences \<open>m\<close> and \<open>l\<close> of equal length and finite values with every
  \<open>m[i] > 0\<close>, and any \<open>n\<close> (the function does not read it),
  \<open>cost_quantum_wesolowski\<close> returns, without raising or warning, the sequence of the
  same length whose \<open>i\<close>-th element is \<open>l[i] * sqrt(m[i])\<close>; at \<open>m = 16\<close>, \<open>l = 4\<close> it
  returns \<open>16\<close>.
\<close>

theorem cost_quantum_wesolowski_formula:
  assumes "length ls = length ms" and "\<forall>x\<in>set ms. 0 < x"
  shows "cost_quantum_wesolowski n (map Fin ms) (map Fin ls)
           = Inr (map (\<lambda>(lv, mv). Fin (lv * sqrt mv)) (zip ls ms), {})
         \<and> length (map (\<lambda>(lv, mv). Fin (lv * sqrt mv)) (zip ls ms)) = length ms"
proof -
  have "\<forall>x\<in>set ms. 0 \<le> x" using assms(2) by force
  with assms(1) show ?thesis by (simp add: cost_quantum_wesolowski_Fin)
qed

theorem cost_quantum_wesolowski_formula_witness:
  "cost_quantum_wesolowski [Fin 100] [Fin 16] [Fin 4] = Inr ([Fin 16], {})"
proof -
  have "sqrt 16 = (4::real)" using real_sqrt_abs [of 4] by simp
  then show ?thesis
    using cost_quantum_wesolowski_formula [of "[4]" "[16]" "[Fin 100]"] by simp
qed

text \<open>
  C5: on aligned sequences of finite non-negative values none of the four cost
  functions raises: each returns a result. None issues a warning either,
  \<open>cost_dijkstra\<close> for sizes \<open>\<ge> 1\<close>, where it is defined.
\<close>

theorem cost_functions_never_raise:
  assumes "length m = length n" and "length l = length n"
    and "list_all (fin_ge 0) n" and "list_all (fin_ge 0) m" and "list_all (fin_ge 0) l"
  shows "(\<exists>r w. cost_dijkstra n m = Inr (r, w))
       \<and> (list_all (fin_ge 1) n \<longrightarrow> (\<exists>r. cost_dijkstra n m = Inr (r, {})))
       \<and> (\<exists>r. cost_duan_et_al n m = Inr (r, {}))
       \<and> (\<exists>r. cost_quantum_grover n m = Inr (r, {}))
       \<and> (\<exists>r. cost_quantum_wesolowski n m l = Inr (r, {}))"
proof -
  obtain ns where ns: "n = map Fin ns" "\<forall>x\<in>set ns. 0 \<le> x"
    using fin_ge_list [OF assms(3)] by blast
  obtain ms where ms: "m = map Fin ms" "\<forall>x\<in>set ms. 0 \<le> x"
    using fin_ge_list [OF assms(4)] by blast
  obtain ls where ls: "l = map Fin ls"
    using fin_ge_list [OF assms(5)] by blast
  have len: "length ms = length ns" "length ls = length ms"
    using assms(1,2) ns(1) ms(1) ls by simp_all
  have d0: "\<exists>r w. cost_dijkstra n m = Inr (r, w)"
    using cost_dijkstra_returns [OF assms(1)] .
  have d1: "list_all (fin_ge 1) n \<longrightarrow> (\<exists>r. cost_dijkstra n m = Inr (r, {}))"
  proof
    assume "list_all (fin_ge 1) n"
    then have "\<forall>x\<in>set ns. 1 \<le> x" unfolding ns(1) by (simp add: list_all_iff)
    then show "\<exists>r. cost_dijkstra n m = Inr (r, {})"
      using cost_dijkstra_Fin [OF len(1)] ns(1) ms(1) by simp
  qed
  have u: "\<exists>r. cost_duan_et_al n m = Inr (r, {})"
    using cost_duan_et_al_eq [OF assms(1)] by simp
  have g: "\<exists>r. cost_quantum_grover n m = Inr (r, {})"
    using cost_quantum_grover_Fin [OF len(1) ns(2)] ns(1) ms(1) by simp
  have w: "\<exists>r. cost_quantum_wesolowski n m l = Inr (r, {})"
    using cost_quantum_wesolowski_Fin [OF len(2) ms(2)] ms(1) ls by simp
  from d0 d1 u g w show ?thesis by blast
qed

theorem cost_functions_never_raise_witness:
  "(\<exists>r w. cost_dijkstra [Fin 1, Fin 8] [Fin 0, Fin 80] = Inr (r, w))
   \<and> (\<exists>r. cost_dijkstra [Fin 1, Fin 8] [Fin 0, Fin 80] = Inr (r, {}))
   \<and> (\<exists>r. cost_duan_et_al [Fin 1, Fin 8] [Fin 0, Fin 80] = Inr (r, {}))
   \<and> (\<exists>r. cost_quantum_grover [Fin 1, Fin 8] [Fin 0, Fin 80] = Inr (r, {}))
   \<and> (\<exists>r. cost_quantum_wesolowski [Fin 1, Fin 8] [Fin 0, Fin 80] [Fin 0, Fin 3] = Inr (r, {}))"
  using cost_functions_never_raise [of "[Fin 0, Fin 80]" "[Fin 1, Fin 8]" "[Fin 0, Fin 3]"]
  by simp

lemma log2_half: "log 2 (1 / 2) = - 1"
  by (simp add: log_divide)

text \<open>
  C1 as stated fails: a size between \<open>0\<close> and \<open>1\<close> is positive, its logarithm is
  negative and finite, the guard leaves it, and the fractional power of a negative number
  is NaN.
\<close>

theorem cost_duan_et_al_nan_counterexample:
  "cost_duan_et_al [Fin (1 / 2)] [Fin 5] = Inr ([NaN], {})"
  by (simp add: cost_duan_et_al_eq guarded_log_def log2_half)

text \<open>
  C1, amended: in \<open>cost_duan_et_al\<close> every position where \<open>log2(n)\<close> is \<open>-inf\<close> holds
  zero before the exponentiation, and every other position keeps its logarithm; and for
  aligned \<open>n\<close>, \<open>m\<close> with every \<open>n[i]\<close> finite and either \<open>0\<close> or \<open>\<ge> 1\<close> and every
  \<open>m[i]\<close> finite, the cost series has the length of \<open>n\<close> and contains no NaN and no
  infinity.
\<close>

theorem cost_duan_et_al_guard:
  "(\<exists>lg w lv w'. np_log2 n = Inr (lg, w) \<and> duan_log_val n = Inr (lv, w')
       \<and> length lg = length n \<and> length lv = length n
       \<and> (\<forall>i<length n. lv ! i = (if lg ! i = NInf then Fin 0 else lg ! i)))
   \<and> (length m = length n \<and> list_all (\<lambda>x. x = Fin 0 \<or> fin_ge 1 x) n \<and> list_all is_fin m
        \<longrightarrow> (\<exists>r. cost_duan_et_al n m = Inr (r, {}) \<and> length r = length n \<and> list_all is_fin r))"
proof -
  have guard: "\<exists>lg w lv w'. np_log2 n = Inr (lg, w) \<and> duan_log_val n = Inr (lv, w')
       \<and> length lg = length n \<and> length lv = length n
       \<and> (\<forall>i<length n. lv ! i = (if lg ! i = NInf then Fin 0 else lg ! i))"
    by (simp add: duan_log_val_eq np_log2_def ufunc1_def guarded_log_def)
  have fin: "\<exists>r. cost_duan_et_al n m = Inr (r, {}) \<and> length r = length n \<and> list_all is_fin r"
    if len: "length m = length n" and dn: "list_all (\<lambda>x. x = Fin 0 \<or> fin_ge 1 x) n"
      and dm: "list_all is_fin m"
  proof -
    have elt: "is_fin (fmul mv (fpow_two_thirds (guarded_log nv)))"
      if "is_fin mv" and "nv = Fin 0 \<or> fin_ge 1 nv" for mv nv
    proof -
      from that(1) obtain a where a: "mv = Fin a" by (cases mv) auto
      from that(2) obtain b where b: "nv = Fin b" "b = 0 \<or> 1 \<le> b" by (cases nv) auto
      have "0 \<le> log 2 b" if "1 \<le> b" using that by simp
      then show ?thesis using a b by (auto simp: guarded_log_def)
    qed
    have "list_all is_fin (map (\<lambda>(mv, nv). fmul mv (fpow_two_thirds (guarded_log nv))) (zip m n))"
      unfolding list_all_iff
    proof
      fix z assume "z \<in> set (map (\<lambda>(mv, nv). fmul mv (fpow_two_thirds (guarded_log nv))) (zip m n))"
      then obtain mv nv where mn: "(mv, nv) \<in> set (zip m n)"
        and z: "z = fmul mv (fpow_two_thirds (guarded_log nv))" by auto
      from mn have "mv \<in> set m" "nv \<in> set n"
        by (auto dest: set_zip_leftD set_zip_rightD)
      with dn dm have "is_fin mv" "nv = Fin 0 \<or> fin_ge 1 nv" by (auto simp: list_all_iff)
      then show "is_fin z" unfolding z by (rule elt)
    qed
    then show ?thesis using len by (simp add: cost_duan_et_al_eq)
  qed
  from guard fin show ?thesis by blast
qed

theorem cost_duan_et_al_guard_witness:
  "(\<exists>lg w lv w'. np_log2 [Fin 0, Fin 8] = Inr (lg, w) \<and> duan_log_val [Fin 0, Fin 8] = Inr (lv, w')
       \<and> lg ! 0 = NInf \<and> lv ! 0 = Fin 0 \<and> lv ! 1 = lg ! 1)
   \<and> (\<exists>r. cost_duan_et_al [Fin 0, Fin 8] [Fin 5, Fin 80] = Inr (r, {}) \<and> length r = 2
          \<and> list_all is_fin r)"
proof -
  note inst = cost_duan_et_al_guard [of "[Fin 0, Fin 8]" "[Fin 5, Fin 80]"]
  from inst obtain lg w lv w' where g: "np_log2 [Fin 0, Fin 8] = Inr (lg, w)"
    "duan_log_val [Fin 0, Fin 8] = Inr (lv, w')"
    "\<forall>i<length [Fin 0, Fin 8]. lv ! i = (if lg ! i = NInf then Fin 0 else lg ! i)"
    by blast
  have lg: "lg = [NInf, Fin (log 2 8)]"
    using g(1) by (simp add: np_log2_def ufunc1_def)
  from g(3) have "lv ! 0 = (if lg ! 0 = NInf then Fin 0 else lg ! 0)"
    and "lv ! 1 = (if lg ! 1 = NInf then Fin 0 else lg ! 1)" by simp_all
  with lg have "lg ! 0 = NInf \<and> lv ! 0 = Fin 0 \<and> lv ! 1 = lg ! 1" by simp
  with g(1,2) have first: "\<exists>lg w lv w'. np_log2 [Fin 0, Fin 8] = Inr (lg, w)
       \<and> duan_log_val [Fin 0, Fin 8] = Inr (lv, w')
       \<and> lg ! 0 = NInf \<and> lv ! 0 = Fin 0 \<and> lv ! 1 = lg ! 1" by blast
  from inst have second: "\<exists>r. cost_duan_et_al [Fin 0, Fin 8] [Fin 5, Fin 80] = Inr (r, {})
      \<and> length r = 2 \<and> list_all is_fin r" by (simp add: numeral_2_eq_2)
  from first second show ?thesis by blast
qed

section \<open>Properties of the size sweeps\<close>

lemma linspace_eq:
  assumes "0 \<le> num"
  shows "linspace start stop num
         = Inr (map (\<lambda>i. start + real i * ((stop - start) / real (nat num - 1))) [0..<nat num])"
proof -
  define k where "k = nat num"
  define g where "g = (\<lambda>i. start + real i * ((stop - start) / real (k - 1)))"
  have y: "map (\<lambda>i. (if 0 < k - 1 then real i * ((stop - start) / real (k - 1))
                       else real i * (stop - start)) + start) [0..<k]
           = map g [0..<k]"
  proof (rule map_cong [OF refl])
    fix i assume "i \<in> set [0..<k]"
    then have "i < k" by simp
    show "(if 0 < k - 1 then real i * ((stop - start) / real (k - 1))
           else real i * (stop - start)) + start = g i"
    proof (cases "0 < k - 1")
      case True
      then show ?thesis by (simp add: g_def)
    next
      case False
      with \<open>i < k\<close> have "i = 0" by simp
      then show ?thesis by (simp add: g_def)
    qed
  qed
  have upd: "(map g [0..<k])[k - 1 := stop] = map g [0..<k]" if "1 < k"
  proof -
    have "g (k - 1) = stop" using that by (simp add: g_def)
    then have "(map g [0..<k]) ! (k - 1) = stop" using that by simp
    then show ?thesis by (metis list_update_id)
  qed
  show ?thesis
    using assms upd unfolding linspace_def Let_def k_def [symmetric] y g_def [symmetric]
    by (simp add: k_def)
qed

lemma fl_le_Fin [simp]: "fl_le (Fin a) (Fin b) = (a \<le> b)"
  by (auto simp: fl_le_def)

lemma logspace_values:
  assumes "0 \<le> num"
  shows "logspace start stop num
         = Inr (map (\<lambda>i. Fin (10 powr (start + real i * ((stop - start) / real (nat num - 1)))))
                  [0..<nat num], {})"
  by (simp add: logspace_def linspace_eq [OF assms] comp_def)

text \<open>
  C7: a sweep generated by \<open>logspace\<close> between a lower and an upper exponent has as many
  values as the requested sample count, and its values are finite, strictly positive and
  non-decreasing; so has, in particular, the sweep \<open>n_values\<close> of \<^verbatim>\<open>run_analysis.py\<close>.
\<close>

theorem logspace_sweep:
  assumes "start \<le> stop" and "0 \<le> num"
  shows "\<exists>xs. logspace start stop num = Inr (xs, {}) \<and> length xs = nat num
           \<and> list_all (\<lambda>x. is_fin x \<and> fl_less (Fin 0) x) xs \<and> sorted_wrt fl_le xs"
proof -
  define g where "g = (\<lambda>i. 10 powr (start + real i * ((stop - start) / real (nat num - 1))))"
  have mono: "g i \<le> g j" if "i < j" for i j
  proof -
    have "0 \<le> (stop - start) / real (nat num - 1)" using assms(1) by simp
    then have "real i * ((stop - start) / real (nat num - 1))
               \<le> real j * ((stop - start) / real (nat num - 1))"
      using that by (intro mult_right_mono) simp_all
    then show ?thesis by (simp add: g_def)
  qed
  have "sorted_wrt (\<lambda>i j. fl_le (Fin (g i)) (Fin (g j))) [0..<nat num]"
    by (rule sorted_wrt_mono_rel [of _ "(<)"]) (auto simp: mono)
  then have srt: "sorted_wrt fl_le (map (\<lambda>i. Fin (g i)) [0..<nat num])"
    by (simp add: sorted_wrt_map)
  have pos: "list_all (\<lambda>x. is_fin x \<and> fl_less (Fin 0) x) (map (\<lambda>i. Fin (g i)) [0..<nat num])"
    by (simp add: list_all_iff g_def)
  show ?thesis
    using srt pos unfolding logspace_values [OF assms(2)] g_def by simp
qed

theorem logspace_sweep_witness:
  "\<exists>xs. n_values = Inr (xs, {}) \<and> length xs = 100
        \<and> list_all (\<lambda>x. is_fin x \<and> fl_less (Fin 0) x) xs \<and> sorted_wrt fl_le xs"
  using logspace_sweep [of 3 9 100] by (simp add: n_values_def)

section \<open>Properties of sample extraction\<close>

lemma fmax_Fin [simp]: "fmax (Fin a) (Fin b) = Fin (max a b)"
  by (simp add: fmax_def max_def)

lemma fmin_Fin [simp]: "fmin (Fin a) (Fin b) = Fin (min a b)"
  by (auto simp: fmin_def min_def)

lemma foldl_fmax_Fin: "foldl fmax (Fin a) (map Fin rs) = Fin (Max (set (a # rs)))"
proof (induction rs arbitrary: a)
  case Nil
  then show ?case by simp
next
  case (Cons r rs)
  have "Max (insert (max a r) (set rs)) = Max (insert a (insert r (set rs)))"
    by (cases "rs = []") (simp_all add: max.assoc)
  then show ?case using Cons [of "max a r"] by simp
qed

lemma foldl_fmin_Fin: "foldl fmin (Fin a) (map Fin rs) = Fin (Min (set (a # rs)))"
proof (induction rs arbitrary: a)
  case Nil
  then show ?case by simp
next
  case (Cons r rs)
  have "Min (insert (min a r) (set rs)) = Min (insert a (insert r (set rs)))"
    by (cases "rs = []") (simp_all add: min.assoc)
  then show ?case using Cons [of "min a r"] by simp
qed

lemma np_max_Fin: "rs \<noteq> [] \<Longrightarrow> np_max (map Fin rs) = Inr (Fin (Max (set rs)), {})"
  by (cases rs) (simp_all add: np_max_def foldl_fmax_Fin del: set_simps)

lemma np_min_Fin: "rs \<noteq> [] \<Longrightarrow> np_min (map Fin rs) = Inr (Fin (Min (set rs)), {})"
  by (cases rs) (simp_all add: np_min_def foldl_fmin_Fin del: set_simps)

lemma fl_le_refl: "a \<noteq> NaN \<Longrightarrow> fl_le a a"
  by (cases a) (auto simp: fl_le_def)

lemma fl_not_le: "a \<noteq> NaN \<Longrightarrow> b \<noteq> NaN \<Longrightarrow> \<not> fl_le a b \<Longrightarrow> fl_less b a"
  by (auto simp: fl_le_def)

lemma fl_less_le_trans: "fl_less a b \<Longrightarrow> fl_le b c \<Longrightarrow> fl_less a c"
  by (cases a; cases b; cases c) (auto simp: fl_le_def)

lemma fl_less_imp_le: "fl_less a b \<Longrightarrow> fl_le a b"
  by (cases a; cases b) (auto simp: fl_le_def)

lemma argmin_loop_min:
  assumes "mi < i" and "length pre = i" and "pre ! mi = mp" and "NaN \<notin> set (pre @ xs)"
    and "\<forall>j<i. fl_le mp (pre ! j)" and "\<forall>j<mi. fl_less mp (pre ! j)"
  shows "argmin_loop mp mi i xs < length (pre @ xs)
       \<and> (\<forall>j<length (pre @ xs). fl_le ((pre @ xs) ! argmin_loop mp mi i xs) ((pre @ xs) ! j))
       \<and> (\<forall>j<argmin_loop mp mi i xs.
            fl_less ((pre @ xs) ! argmin_loop mp mi i xs) ((pre @ xs) ! j))"
  using assms
proof (induction xs arbitrary: mp mi i pre)
  case Nil
  then show ?case by simp
next
  case (Cons x xs)
  have mp: "mp \<noteq> NaN" using Cons.prems(1,2,3,4) by (metis UnCI nth_mem set_append)
  have x: "x \<noteq> NaN" using Cons.prems(4) by auto
  have nan: "NaN \<notin> set ((pre @ [x]) @ xs)" using Cons.prems(4) by simp
  show ?case
  proof (cases "fl_le mp x")
    case True
    have "argmin_loop mp mi (Suc i) xs < length ((pre @ [x]) @ xs)
       \<and> (\<forall>j<length ((pre @ [x]) @ xs).
            fl_le (((pre @ [x]) @ xs) ! argmin_loop mp mi (Suc i) xs) (((pre @ [x]) @ xs) ! j))
       \<and> (\<forall>j<argmin_loop mp mi (Suc i) xs.
            fl_less (((pre @ [x]) @ xs) ! argmin_loop mp mi (Suc i) xs) (((pre @ [x]) @ xs) ! j))"
    proof (rule Cons.IH [OF _ _ _ nan])
      show "mi < Suc i" using Cons.prems(1) by simp
      show "length (pre @ [x]) = Suc i" using Cons.prems(2) by simp
      show "(pre @ [x]) ! mi = mp" using Cons.prems(1,2,3) by (simp add: nth_append)
      show "\<forall>j<Suc i. fl_le mp ((pre @ [x]) ! j)"
        using Cons.prems(2,5) True by (auto simp: nth_append less_Suc_eq)
      show "\<forall>j<mi. fl_less mp ((pre @ [x]) ! j)"
        using Cons.prems(1,2,6) by (auto simp: nth_append)
    qed
    then show ?thesis using True mp by simp
  next
    case False
    then have less: "fl_less x mp" using mp x by (rule fl_not_le [rotated 2])
    have "argmin_loop x i (Suc i) xs < length ((pre @ [x]) @ xs)
       \<and> (\<forall>j<length ((pre @ [x]) @ xs).
            fl_le (((pre @ [x]) @ xs) ! argmin_loop x i (Suc i) xs) (((pre @ [x]) @ xs) ! j))
       \<and> (\<forall>j<argmin_loop x i (Suc i) xs.
            fl_less (((pre @ [x]) @ xs) ! argmin_loop x i (Suc i) xs) (((pre @ [x]) @ xs) ! j))"
    proof (rule Cons.IH [OF _ _ _ nan])
      show "i < Suc i" by simp
      show "length (pre @ [x]) = Suc i" using Cons.prems(2) by simp
      show "(pre @ [x]) ! i = x" using Cons.prems(2) by (simp add: nth_append)
      have "fl_less x (pre ! j)" if "j < i" for j
        using less Cons.prems(5) that by (blast intro: fl_less_le_trans)
      then show "\<forall>j<i. fl_less x ((pre @ [x]) ! j)"
        using Cons.prems(2) by (auto simp: nth_append)
      then show "\<forall>j<Suc i. fl_le x ((pre @ [x]) ! j)"
        using Cons.prems(2) x by (auto simp: nth_append less_Suc_eq fl_le_refl fl_less_imp_le)
    qed
    then show ?thesis using False mp by simp
  qed
qed

lemma np_argmin_min:
  assumes "ds \<noteq> []" and "NaN \<notin> set ds"
  shows "\<exists>k. np_argmin ds = Inr (k, {}) \<and> k < length ds
           \<and> (\<forall>j<length ds. fl_le (ds ! k) (ds ! j)) \<and> (\<forall>j<k. fl_less (ds ! k) (ds ! j))"
proof -
  from assms(1) obtain d r where ds: "ds = d # r" by (cases ds) auto
  have d: "d \<noteq> NaN" using assms(2) ds by auto
  have "argmin_loop d 0 1 r < length ([d] @ r)
       \<and> (\<forall>j<length ([d] @ r). fl_le (([d] @ r) ! argmin_loop d 0 1 r) (([d] @ r) ! j))
       \<and> (\<forall>j<argmin_loop d 0 1 r. fl_less (([d] @ r) ! argmin_loop d 0 1 r) (([d] @ r) ! j))"
    by (rule argmin_loop_min) (use assms(2) ds d in \<open>simp_all add: fl_le_refl\<close>)
  then show ?thesis unfolding ds by (simp add: np_argmin_def)
qed

lemma f64_round_not_NaN: "f64_round x \<noteq> NaN"
  by (simp add: f64_round_def Let_def)

lemma abs_diff_not_NaN: "abs_diff (Fin x) (Fin p) \<noteq> NaN"
proof -
  have "fabs v \<noteq> NaN" if "v \<noteq> NaN" for v using that by (cases v) auto
  then show ?thesis by (simp add: abs_diff_def f64_round_not_NaN)
qed

lemma fsub_fpe_Over: "fsub_fpe (Fin x) (Fin p) \<subseteq> {Over}"
  by simp

text \<open>
  The nearest index minimises the absolute difference as computed, and is the first index
  that does.
\<close>

lemma nearest_index_computed:
  assumes "rs \<noteq> []"
  shows "\<exists>k w. nearest_index (map Fin rs) (Fin p) = Inr (k, w) \<and> k < length rs
           \<and> (\<forall>j<length rs. fl_le (abs_diff (Fin (rs ! k)) (Fin p)) (abs_diff (Fin (rs ! j)) (Fin p)))
           \<and> (\<forall>j<k. fl_less (abs_diff (Fin (rs ! k)) (Fin p)) (abs_diff (Fin (rs ! j)) (Fin p)))"
proof -
  define ds where "ds = map (\<lambda>r. abs_diff (Fin r) (Fin p)) rs"
  define w where "w = (\<Union>x\<in>set (map Fin rs). fsub_fpe x (Fin p))"
  have sub: "np_subtract_scalar (map Fin rs) (Fin p)
             = Inr (map (\<lambda>x. fsub x (Fin p)) (map Fin rs), w)"
    by (simp add: np_subtract_scalar_def ufunc1_def w_def)
  have ab: "np_abs (map (\<lambda>x. fsub x (Fin p)) (map Fin rs)) = Inr (ds, {})"
    by (simp add: np_abs_def ufunc1_def ds_def abs_diff_def comp_def)
  have ne: "ds \<noteq> []" using assms by (simp add: ds_def)
  have nan: "NaN \<notin> set ds"
  proof
    assume "NaN \<in> set ds"
    then obtain r where "NaN = abs_diff (Fin r) (Fin p)" by (auto simp: ds_def)
    then have "abs_diff (Fin r) (Fin p) = NaN" by (rule sym)
    then show False using abs_diff_not_NaN by blast
  qed
  from np_argmin_min [OF ne nan] obtain k where
    k: "np_argmin ds = Inr (k, {})" "k < length ds"
      "\<forall>j<length ds. fl_le (ds ! k) (ds ! j)" "\<forall>j<k. fl_less (ds ! k) (ds ! j)"
    by blast
  have run: "nearest_index (map Fin rs) (Fin p) = Inr (k, w)"
    unfolding nearest_index_def sub then_np_Inr ab using k(1) by simp
  have len: "length ds = length rs" by (simp add: ds_def)
  have nth: "ds ! j = abs_diff (Fin (rs ! j)) (Fin p)" if "j < length rs" for j
    using that by (simp add: ds_def)
  have "k < length rs" using k(2) len by simp
  moreover have "\<forall>j<length rs. fl_le (abs_diff (Fin (rs ! k)) (Fin p)) (abs_diff (Fin (rs ! j)) (Fin p))"
    using k(2,3) len nth by auto
  moreover have "\<forall>j<k. fl_less (abs_diff (Fin (rs ! k)) (Fin p)) (abs_diff (Fin (rs ! j)) (Fin p))"
    using k(2,4) len nth by auto
  ultimately show ?thesis using run by blast
qed

lemma sample_index_computed:
  assumes "rs \<noteq> []"
  shows "(p < Min (set rs) \<or> Max (set rs) < p \<longrightarrow> sample_index (map Fin rs) (Fin p) = Inr (None, {}))
       \<and> (Min (set rs) \<le> p \<and> p \<le> Max (set rs) \<longrightarrow>
            (\<exists>k w. sample_index (map Fin rs) (Fin p) = Inr (Some k, w)
               \<and> nearest_index (map Fin rs) (Fin p) = Inr (k, w) \<and> k < length rs
               \<and> (\<forall>j<length rs. fl_le (abs_diff (Fin (rs ! k)) (Fin p)) (abs_diff (Fin (rs ! j)) (Fin p)))
               \<and> (\<forall>j<k. fl_less (abs_diff (Fin (rs ! k)) (Fin p)) (abs_diff (Fin (rs ! j)) (Fin p)))))"
proof -
  define mx mn where "mx = Max (set rs)" and "mn = Min (set rs)"
  have mx: "np_max (map Fin rs) = Inr (Fin mx, {})"
    unfolding mx_def using assms by (rule np_max_Fin)
  have mn: "np_min (map Fin rs) = Inr (Fin mn, {})"
    unfolding mn_def using assms by (rule np_min_Fin)
  have skip: "sample_index (map Fin rs) (Fin p) = Inr (None, {})" if "p < mn \<or> mx < p"
    using that by (auto simp: sample_index_def mx mn then_np_Inr)
  have pick: "\<exists>k w. sample_index (map Fin rs) (Fin p) = Inr (Some k, w)
               \<and> nearest_index (map Fin rs) (Fin p) = Inr (k, w) \<and> k < length rs
               \<and> (\<forall>j<length rs. fl_le (abs_diff (Fin (rs ! k)) (Fin p)) (abs_diff (Fin (rs ! j)) (Fin p)))
               \<and> (\<forall>j<k. fl_less (abs_diff (Fin (rs ! k)) (Fin p)) (abs_diff (Fin (rs ! j)) (Fin p)))"
    if "mn \<le> p \<and> p \<le> mx"
  proof -
    from nearest_index_computed [OF assms, of p] obtain k w where
      k: "nearest_index (map Fin rs) (Fin p) = Inr (k, w)" "k < length rs"
        "\<forall>j<length rs. fl_le (abs_diff (Fin (rs ! k)) (Fin p)) (abs_diff (Fin (rs ! j)) (Fin p))"
        "\<forall>j<k. fl_less (abs_diff (Fin (rs ! k)) (Fin p)) (abs_diff (Fin (rs ! j)) (Fin p))"
      by blast
    have "sample_index (map Fin rs) (Fin p) = Inr (Some k, w)"
      using that k(1) by (simp add: sample_index_def mx mn then_np_Inr)
    with k show ?thesis by blast
  qed
  from skip pick show ?thesis unfolding mx_def mn_def by blast
qed

lemma rne_unique:
  assumes "\<bar>y - of_int n\<bar> < 1 / 2"
  shows "rne y = n"
proof (cases "of_int n \<le> y")
  case True
  then have "\<lfloor>y\<rfloor> = n" using assms by (intro floor_unique) auto
  then show ?thesis using assms True by (simp add: rne_def Let_def)
next
  case False
  then have f: "\<lfloor>y\<rfloor> = n - 1" using assms by (intro floor_unique) auto
  have "1 / 2 < y - of_int (n - 1)" using assms False by auto
  then show ?thesis unfolding rne_def Let_def f by simp
qed

lemma f64_round_near:
  assumes lo: "2 ^ e \<le> \<bar>x\<bar>" and hi: "\<bar>x\<bar> < 2 ^ Suc e" and e: "e < 1023"
    and n: "\<bar>x * 2 ^ 52 / 2 ^ e - of_int n\<bar> < 1 / 2"
  shows "f64_round x = Fin (of_int n * 2 ^ e / 2 ^ 52)"
proof -
  have pos: "0 < \<bar>x\<bar>" using lo by (smt (verit) zero_less_power)
  then have x0: "x \<noteq> 0" by auto
  have p1: "(2::real) powr real e = 2 ^ e" by (simp add: powr_realpow)
  have p2: "(2::real) powr (real e + 1) = 2 ^ Suc e" by (simp add: powr_add powr_realpow)
  have "real e \<le> log 2 \<bar>x\<bar>" using pos lo p1 by (simp add: le_log_iff)
  moreover have "log 2 \<bar>x\<bar> < real e + 1" using pos hi p2 by (simp add: log_less_iff)
  ultimately have fl: "\<lfloor>log 2 \<bar>x\<bar>\<rfloor> = int e" by (intro floor_unique) auto
  have q: "f64_quantum x = 2 ^ e / 2 ^ 52"
    unfolding f64_quantum_def fl by (simp add: powr_diff powr_realpow)
  have y: "x / f64_quantum x = x * 2 ^ 52 / 2 ^ e" unfolding q by simp
  have "rne (x / f64_quantum x) = n" unfolding y using n by (rule rne_unique)
  then have r: "f64_quantum x * of_int (rne (x / f64_quantum x)) = of_int n * 2 ^ e / 2 ^ 52"
    by (simp add: q)
  have "\<bar>x * 2 ^ 52 / 2 ^ e\<bar> < 2 ^ 53"
  proof -
    have "\<bar>x * 2 ^ 52 / 2 ^ e\<bar> = \<bar>x\<bar> * 2 ^ 52 / 2 ^ e" by (simp add: abs_mult)
    also have "\<dots> < 2 ^ Suc e * 2 ^ 52 / 2 ^ e"
      using hi by (intro divide_strict_right_mono mult_strict_right_mono) simp_all
    also have "\<dots> = 2 ^ 53" by simp
    finally show ?thesis .
  qed
  moreover define yv where "yv = x * 2 ^ 52 / 2 ^ e"
  ultimately have "\<bar>yv\<bar> < 2 ^ 53" "\<bar>yv - of_int n\<bar> < 1 / 2" using n by simp_all
  then have "\<bar>real_of_int n\<bar> < 2 ^ 53 + 1 / 2" by linarith
  then have "\<bar>real_of_int n\<bar> < real_of_int (2 ^ 53 + 1)" by simp
  then have "\<bar>n\<bar> < 2 ^ 53 + 1" by (metis of_int_abs of_int_less_iff)
  then have "\<bar>n\<bar> \<le> 2 ^ 53" by simp
  then have nb: "\<bar>real_of_int n\<bar> \<le> 2 ^ 53" by (metis of_int_abs of_int_le_iff of_int_numeral of_int_power)
  have "\<bar>of_int n * 2 ^ e / 2 ^ 52 :: real\<bar> = \<bar>real_of_int n\<bar> * 2 ^ e / 2 ^ 52"
    by (simp add: abs_mult)
  also have "\<dots> \<le> 2 ^ 53 * 2 ^ e / 2 ^ 52"
    using nb by (intro divide_right_mono mult_right_mono) simp_all
  also have "\<dots> = 2 ^ Suc e" by simp
  also have "\<dots> < (2::real) ^ 1024" using e by (intro power_strict_increasing) simp_all
  finally have "\<not> 2 ^ 1024 \<le> \<bar>of_int n * 2 ^ e / 2 ^ 52 :: real\<bar>" by simp
  then show ?thesis unfolding f64_round_def Let_def r using x0 by simp
qed

lemma f64_round_examples:
  "f64_round (1 - 2) = Fin (- 1)" "f64_round (3 - 2) = Fin 1" "f64_round (5 - 2) = Fin 3"
  "f64_round (2 - 1 / 2 ^ 52 - 10 ^ 8) = Fin (- 99999998)"
  "f64_round (199999998 - 10 ^ 8) = Fin 99999998"
proof -
  show "f64_round (1 - 2) = Fin (- 1)"
    using f64_round_near [of 0 "1 - 2" "- 4503599627370496"] by simp
  show "f64_round (3 - 2) = Fin 1"
    using f64_round_near [of 0 "3 - 2" "4503599627370496"] by simp
  show "f64_round (5 - 2) = Fin 3"
    using f64_round_near [of 1 "5 - 2" "6755399441055744"] by simp
  show "f64_round (2 - 1 / 2 ^ 52 - 10 ^ 8) = Fin (- 99999998)"
    using f64_round_near [of 26 "2 - 1 / 2 ^ 52 - 10 ^ 8" "- 6710886265782272"] by simp
  show "f64_round (199999998 - 10 ^ 8) = Fin 99999998"
    using f64_round_near [of 26 "199999998 - 10 ^ 8" "6710886265782272"] by simp
qed

text \<open>
  C4 as stated fails: in the sorted sweep \<open>[2 - 2\<^sup>-\<^sup>5\<^sup>2, 199999998]\<close> the second size is
  strictly nearer to \<open>10\<^sup>8\<close> than the first, by \<open>2\<^sup>-\<^sup>5\<^sup>2\<close>; both differences round to
  \<open>99999998\<close> in float64, and the first index is selected.
\<close>

theorem sample_index_rounding_counterexample:
  "sample_index [Fin (2 - 1 / 2 ^ 52), Fin 199999998] (Fin (10 ^ 8)) = Inr (Some 0, {})
   \<and> \<bar>199999998 - 10 ^ 8\<bar> < \<bar>(2 - 1 / 2 ^ 52) - (10 ^ 8 :: real)\<bar>"
proof -
  have mx: "np_max [Fin (2 - 1 / 2 ^ 52), Fin 199999998] = Inr (Fin 199999998, {})"
    by (simp add: np_max_def)
  have mn: "np_min [Fin (2 - 1 / 2 ^ 52), Fin 199999998] = Inr (Fin (2 - 1 / 2 ^ 52), {})"
    by (simp add: np_min_def)
  have sub: "np_subtract_scalar [Fin (2 - 1 / 2 ^ 52), Fin 199999998] (Fin (10 ^ 8))
             = Inr ([Fin (- 99999998), Fin 99999998], {})"
    using f64_round_examples(4,5) by (simp add: np_subtract_scalar_def ufunc1_def)
  have ab: "np_abs [Fin (- 99999998), Fin 99999998] = Inr ([Fin 99999998, Fin 99999998], {})"
    by (simp add: np_abs_def ufunc1_def)
  have am: "np_argmin [Fin 99999998, Fin 99999998] = Inr (0, {})"
    by (simp add: np_argmin_def)
  have near: "nearest_index [Fin (2 - 1 / 2 ^ 52), Fin 199999998] (Fin (10 ^ 8)) = Inr (0, {})"
    unfolding nearest_index_def sub then_np_Inr ab am by simp
  have "sample_index [Fin (2 - 1 / 2 ^ 52), Fin 199999998] (Fin (10 ^ 8)) = Inr (Some 0, {})"
    unfolding sample_index_def mx mn then_np_Inr near by simp
  then show ?thesis by simp
qed

text \<open>
  C4, amended: for a non-empty sweep of finite sizes and a finite representative value, the
  sample loop of \<^verbatim>\<open>run_and_plot_scenario\<close> skips a value strictly below the sweep's minimum
  or strictly above its maximum, and otherwise selects the index whose absolute difference
  from the value, as computed in float64, is smallest, the lowest such index on a tie; sizes
  whose differences round to the same float64 tie. The sample loops of
  \<^verbatim>\<open>run_analysis.py\<close> select the index in the same way and skip nothing.
\<close>

theorem sample_index_nearest:
  assumes "rs \<noteq> []"
  shows "(p < Min (set rs) \<or> Max (set rs) < p \<longrightarrow> sample_index (map Fin rs) (Fin p) = Inr (None, {}))
       \<and> (Min (set rs) \<le> p \<and> p \<le> Max (set rs) \<longrightarrow>
            (\<exists>k w. sample_index (map Fin rs) (Fin p) = Inr (Some k, w) \<and> k < length rs
               \<and> (\<forall>j<length rs. fl_le (abs_diff (Fin (rs ! k)) (Fin p)) (abs_diff (Fin (rs ! j)) (Fin p)))
               \<and> (\<forall>j<k. fl_less (abs_diff (Fin (rs ! k)) (Fin p)) (abs_diff (Fin (rs ! j)) (Fin p)))))
       \<and> (\<exists>k w. nearest_index (map Fin rs) (Fin p) = Inr (k, w) \<and> k < length rs
               \<and> (\<forall>j<length rs. fl_le (abs_diff (Fin (rs ! k)) (Fin p)) (abs_diff (Fin (rs ! j)) (Fin p)))
               \<and> (\<forall>j<k. fl_less (abs_diff (Fin (rs ! k)) (Fin p)) (abs_diff (Fin (rs ! j)) (Fin p))))"
  using sample_index_computed [OF assms, of p] nearest_index_computed [OF assms, of p] by blast

theorem sample_index_nearest_witness:
  "sample_index [Fin 1, Fin 3, Fin 5] (Fin 7) = Inr (None, {})
   \<and> sample_index [Fin 1, Fin 3, Fin 5] (Fin 0) = Inr (None, {})
   \<and> (\<exists>w. sample_index [Fin 1, Fin 3, Fin 5] (Fin 2) = Inr (Some 0, w))"
proof -
  have a: "sample_index [Fin 1, Fin 3, Fin 5] (Fin 7) = Inr (None, {})"
    using sample_index_nearest [of "[1, 3, 5]" 7] by simp
  have b: "sample_index [Fin 1, Fin 3, Fin 5] (Fin 0) = Inr (None, {})"
    using sample_index_nearest [of "[1, 3, 5]" 0] by simp
  have d: "abs_diff (Fin 1) (Fin 2) = Fin 1" "abs_diff (Fin 3) (Fin 2) = Fin 1"
    "abs_diff (Fin 5) (Fin 2) = Fin 3"
    using f64_round_examples(1,2,3) by (simp_all add: abs_diff_def)
  from sample_index_nearest [of "[1, 3, 5]" 2] obtain k w where
    k: "sample_index [Fin 1, Fin 3, Fin 5] (Fin 2) = Inr (Some k, w)" "k < 3"
      "\<forall>j<k. fl_less (abs_diff (Fin ([1, 3, 5] ! k)) (Fin 2)) (abs_diff (Fin ([1, 3, 5] ! j)) (Fin 2))"
    by auto
  have "k = 0"
  proof (rule ccontr)
    assume "k \<noteq> 0"
    with k(3) have "fl_less (abs_diff (Fin ([1, 3, 5] ! k)) (Fin 2)) (abs_diff (Fin ([1, 3, 5] ! 0)) (Fin 2))"
      by blast
    moreover from k(2) \<open>k \<noteq> 0\<close> have "k = 1 \<or> k = 2" by auto
    ultimately show False using d by auto
  qed
  with k(1) have "\<exists>w. sample_index [Fin 1, Fin 3, Fin 5] (Fin 2) = Inr (Some 0, w)" by blast
  with a b show ?thesis by blast
qed

section \<open>Properties of the scenarios\<close>

text \<open>
  C3 as stated fails: the first scenario of \<^verbatim>\<open>run_comprehensive_analysis.py\<close> sweeps
  \<open>10\<^sup>3\<close> to \<open>10\<^sup>9\<close>, and its representative sizes are not \<open>10\<^sup>3\<close>, \<open>10\<^sup>6\<close>, \<open>10\<^sup>9\<close>.
\<close>

theorem n_points_comprehensive_counterexample:
  "sweep_args Sparse_short_path = (3, 9, 100)
   \<and> n_points Sparse_short_path \<noteq> [10 ^ 3, 10 ^ 6, 10 ^ 9]"
  by simp

text \<open>
  C3, amended: in \<^verbatim>\<open>run_analysis.py\<close> the representative sizes are \<open>10\<^sup>3\<close>, \<open>10\<^sup>6\<close>,
  \<open>10\<^sup>9\<close> for the sweep from \<open>10\<^sup>3\<close> to \<open>10\<^sup>9\<close> and \<open>10\<^sup>3\<close>, \<open>10\<^sup>4\<close>, \<open>10\<^sup>5\<close> for the
  sweep from \<open>10\<^sup>3\<close> to \<open>10\<^sup>5\<close>; in \<^verbatim>\<open>run_comprehensive_analysis.py\<close> every scenario
  uses \<open>10\<^sup>4\<close>, \<open>10\<^sup>6\<close>, \<open>10\<^sup>8\<close>, whatever its sweep.
\<close>

theorem n_points_by_script:
  "(script_of s = Run_analysis \<longrightarrow>
      (sweep_args s = (3, 9, 100) \<longrightarrow> n_points s = [10 ^ 3, 10 ^ 6, 10 ^ 9])
      \<and> (sweep_args s = (3, 5, 100) \<longrightarrow> n_points s = [10 ^ 3, 10 ^ 4, 10 ^ 5]))
   \<and> (script_of s = Run_comprehensive_analysis \<longrightarrow> n_points s = [10 ^ 4, 10 ^ 6, 10 ^ 8])"
  by (cases s) simp_all

theorem n_points_by_script_witness:
  "n_points Sparse_graphs = [10 ^ 3, 10 ^ 6, 10 ^ 9]
   \<and> n_points Dense_graphs = [10 ^ 3, 10 ^ 4, 10 ^ 5]
   \<and> n_points Dense_long_path = [10 ^ 4, 10 ^ 6, 10 ^ 8]"
  using n_points_by_script [of Sparse_graphs] n_points_by_script [of Dense_graphs]
    n_points_by_script [of Dense_long_path]
  by simp

lemma cost_duan_et_al_Fin:
  assumes "length ms = length ns" and "\<forall>x\<in>set ns. 1 \<le> x"
  shows "cost_duan_et_al (map Fin ns) (map Fin ms)
         = Inr (map (\<lambda>(nv, mv). Fin (mv * log 2 nv powr (2 / 3))) (zip ns ms), {})"
proof -
  have "map (\<lambda>(mv, nv). fmul mv (fpow_two_thirds (guarded_log nv))) (zip (map Fin ms) (map Fin ns))
        = map (\<lambda>(nv, mv). Fin (mv * log 2 nv powr (2 / 3))) (zip ns ms)"
    using assms
  proof (induction ms ns rule: list_induct2)
    case Nil
    then show ?case by simp
  next
    case (Cons mv ms nv ns)
    then have "1 \<le> nv" by simp
    then have "0 < nv" "0 \<le> log 2 nv" by simp_all
    then show ?case using Cons by (simp add: guarded_log_def)
  qed
  then show ?thesis using assms(1) by (simp add: cost_duan_et_al_eq)
qed

lemma list_all_zip_fin_ge:
  assumes "\<And>x y. x \<in> set xs \<Longrightarrow> y \<in> set ys \<Longrightarrow> c \<le> g x y"
  shows "list_all (fin_ge c) (map (\<lambda>(x, y). Fin (g x y)) (zip xs ys))"
  unfolding list_all_iff
proof
  fix z assume "z \<in> set (map (\<lambda>(x, y). Fin (g x y)) (zip xs ys))"
  then obtain x y where "(x, y) \<in> set (zip xs ys)" and z: "z = Fin (g x y)" by auto
  then have "x \<in> set xs" "y \<in> set ys" by (auto dest: set_zip_leftD set_zip_rightD)
  then show "fin_ge c z" unfolding z using assms by simp
qed

lemma cost_dict_series:
  assumes "length ms = length ns" and "\<forall>x\<in>set ns. 1 \<le> x" and "\<forall>x\<in>set ms. 0 \<le> x"
  shows "\<exists>d u g. cost_dict (map Fin ns) (map Fin ms)
            = Inr ([(''Dijkstra'', d), (''Duan et al.'', u), (''Grover SSSP'', g)], {})
          \<and> length d = length ns \<and> length u = length ns \<and> length g = length ns
          \<and> list_all (fin_ge 0) d \<and> list_all (fin_ge 0) u \<and> list_all (fin_ge 0) g"
proof -
  have nn: "\<forall>x\<in>set ns. 0 \<le> x" using assms(2) by force
  have lg: "0 \<le> log 2 x" if "x \<in> set ns" for x
  proof -
    from assms(2) that have "1 \<le> x" by blast
    then show ?thesis by simp
  qed
  define d where "d = map (\<lambda>(nv, mv). Fin (mv + nv * log 2 nv)) (zip ns ms)"
  define u where "u = map (\<lambda>(nv, mv). Fin (mv * log 2 nv powr (2 / 3))) (zip ns ms)"
  define g where "g = map (\<lambda>(nv, mv). Fin (sqrt nv * mv)) (zip ns ms)"
  have "cost_dict (map Fin ns) (map Fin ms)
        = Inr ([(''Dijkstra'', d), (''Duan et al.'', u), (''Grover SSSP'', g)], {})"
    unfolding cost_dict_def cost_dijkstra_Fin [OF assms(1,2)] cost_duan_et_al_Fin [OF assms(1,2)]
      cost_quantum_grover_Fin [OF assms(1) nn] then_np_Inr d_def u_def g_def
    by simp
  moreover have "length d = length ns" "length u = length ns" "length g = length ns"
    using assms(1) by (simp_all add: d_def u_def g_def)
  moreover have "list_all (fin_ge 0) d"
    unfolding d_def using assms(3) nn lg by (intro list_all_zip_fin_ge) simp
  moreover have "list_all (fin_ge 0) u"
    unfolding u_def using assms(3) by (intro list_all_zip_fin_ge) simp
  moreover have "list_all (fin_ge 0) g"
    unfolding g_def using assms(3) nn by (intro list_all_zip_fin_ge) simp
  ultimately show ?thesis by blast
qed

lemma scenario_costs_Fin:
  assumes "list_all (fin_ge 1) sweep"
    and "m_func sweep = Inr (m, wm)" and "length m = length sweep" and "list_all (fin_ge 0) m"
    and "case l_func of None \<Rightarrow> True
         | Some f \<Rightarrow> \<exists>l wl. f sweep = Inr (l, wl) \<and> length l = length sweep
                        \<and> list_all (fin_ge 0) l"
  shows "\<exists>costs w. scenario_costs sweep m_func l_func = Inr (costs, w)
           \<and> map fst costs = [''Dijkstra'', ''Duan et al.'', ''Grover SSSP'']
                @ (case l_func of None \<Rightarrow> [] | Some f \<Rightarrow> [''Wesolowski et al.''])
           \<and> list_all (\<lambda>series. length series = length sweep \<and> list_all (fin_ge 0) series)
                (map snd costs)"
proof -
  obtain ns where ns: "sweep = map Fin ns" "\<forall>x\<in>set ns. 1 \<le> x"
    using fin_ge_list [OF assms(1)] by blast
  obtain ms where ms: "m = map Fin ms" "\<forall>x\<in>set ms. 0 \<le> x"
    using fin_ge_list [OF assms(4)] by blast
  have len: "length ms = length ns" using assms(3) ns(1) ms(1) by simp
  from cost_dict_series [OF len ns(2) ms(2)] obtain d u g where
    dict: "cost_dict sweep m = Inr ([(''Dijkstra'', d), (''Duan et al.'', u), (''Grover SSSP'', g)], {})"
    and lens: "length d = length sweep" "length u = length sweep" "length g = length sweep"
    and nonneg: "list_all (fin_ge 0) d" "list_all (fin_ge 0) u" "list_all (fin_ge 0) g"
    unfolding ns(1) ms(1) by auto
  show ?thesis
  proof (cases l_func)
    case None
    then have "scenario_costs sweep m_func l_func
               = Inr ([(''Dijkstra'', d), (''Duan et al.'', u), (''Grover SSSP'', g)], wm)"
      by (simp add: scenario_costs_def assms(2) then_np_Inr dict)
    then show ?thesis using None lens nonneg by simp
  next
    case (Some f)
    with assms(5) obtain l wl where l: "f sweep = Inr (l, wl)" "length l = length sweep"
      "list_all (fin_ge 0) l" by auto
    obtain ls where ls: "l = map Fin ls" using fin_ge_list [OF l(3)] by blast
    have len2: "length ls = length ms" using l(2) ls ns(1) len by simp
    define q where "q = map (\<lambda>(lv, mv). Fin (lv * sqrt mv)) (zip ls ms)"
    have wes: "cost_quantum_wesolowski sweep m l = Inr (q, {})"
      unfolding ms(1) ls q_def using cost_quantum_wesolowski_Fin [OF len2 ms(2)] .
    have "list_all (fin_ge 0) (map Fin ls)" using l(3) ls by simp
    then have lsn: "\<forall>x\<in>set ls. 0 \<le> x" by (simp add: list_all_iff)
    have qn: "list_all (fin_ge 0) q"
      unfolding q_def using lsn ms(2) by (intro list_all_zip_fin_ge) simp
    have ql: "length q = length sweep" using len2 len ns(1) by (simp add: q_def)
    have "scenario_costs sweep m_func l_func
          = Inr ([(''Dijkstra'', d), (''Duan et al.'', u), (''Grover SSSP'', g),
                  (''Wesolowski et al.'', q)], wm \<union> wl)"
      using Some by (simp add: scenario_costs_def assms(2) then_np_Inr dict l(1) wes)
    then show ?thesis using Some lens nonneg qn ql by simp
  qed
qed

lemma m_sparse_Fin: "m_sparse (map Fin ns) = Inr (map (\<lambda>x. Fin (10 * x)) ns, {})"
  unfolding m_sparse_def by (rule ufunc1_Fin) (simp add: fmul_fpe_def)

lemma l_long_Fin: "l_long (map Fin ns) = Inr (map (\<lambda>x. Fin (x / 10)) ns, {})"
  unfolding l_long_def by (rule ufunc1_Fin) simp

text \<open>
  C6, amended: for a scenario run whose sweep values are finite and \<open>\<ge> 1\<close> and whose
  derived edge counts (and path lengths, when a path-length function is supplied) are
  aligned with the sweep, finite and non-negative, the run yields the three cost series,
  and the fourth exactly when a path-length function is supplied; each has the length of
  the sweep, and every value in every series is finite and non-negative.
\<close>

theorem scenario_costs_series:
  assumes "list_all (fin_ge 1) sweep"
    and "m_func sweep = Inr (m, wm)" and "length m = length sweep" and "list_all (fin_ge 0) m"
    and "case l_func of None \<Rightarrow> True
         | Some f \<Rightarrow> \<exists>l wl. f sweep = Inr (l, wl) \<and> length l = length sweep
                        \<and> list_all (fin_ge 0) l"
  shows "\<exists>costs w. scenario_costs sweep m_func l_func = Inr (costs, w)
           \<and> map fst costs = [''Dijkstra'', ''Duan et al.'', ''Grover SSSP'']
                @ (case l_func of None \<Rightarrow> [] | Some f \<Rightarrow> [''Wesolowski et al.''])
           \<and> list_all (\<lambda>series. length series = length sweep \<and> list_all (fin_ge 0) series)
                (map snd costs)"
  using assms by (rule scenario_costs_Fin)

text \<open>
  C6 as stated fails: the positive sweep \<open>[0.5]\<close> with \<open>m = 10n\<close> gives NaN in the
  series of \<open>cost_duan_et_al\<close>.
\<close>

theorem scenario_costs_nan_counterexample:
  "scenario_costs [Fin (1 / 2)] m_sparse None
   = Inr ([(''Dijkstra'', [Fin (9 / 2)]), (''Duan et al.'', [NaN]),
           (''Grover SSSP'', [Fin (sqrt (1 / 2) * 5)])], {})"
proof -
  have m: "m_sparse [Fin (1 / 2)] = Inr ([Fin 5], {})"
    using m_sparse_Fin [of "[1 / 2]"] by simp
  have d: "cost_dijkstra [Fin (1 / 2)] [Fin 5] = Inr ([Fin (9 / 2)], {})"
    by (simp add: cost_dijkstra_def np_log2_def ufunc1_def then_np_Inr np_multiply_def
        np_add_def ufunc2_same_length log2_half fmul_fpe_def fadd_fpe_def)
  have u: "cost_duan_et_al [Fin (1 / 2)] [Fin 5] = Inr ([NaN], {})"
    by (simp add: cost_duan_et_al_eq guarded_log_def log2_half)
  have g: "cost_quantum_grover [Fin (1 / 2)] [Fin 5] = Inr ([Fin (sqrt (1 / 2) * 5)], {})"
    using cost_quantum_grover_Fin [of "[5]" "[1 / 2]"] by simp
  show ?thesis
    by (simp add: scenario_costs_def m then_np_Inr cost_dict_def d u g)
qed

section \<open>The sample rows and the scenario runs of the two scripts\<close>

lemma getitem_in_range: "idx < length a \<Longrightarrow> getitem a idx = Inr (a ! idx, {})"
  by (simp add: getitem_def)

lemma row_costs_in_range:
  assumes "\<forall>series\<in>set (map snd costs). idx < length series"
  shows "row_costs costs idx = Inr (map (\<lambda>series. series ! idx) (map snd costs), {})"
  using assms
proof (induction costs)
  case Nil
  then show ?case by simp
next
  case (Cons c costs)
  obtain name series where c: "c = (name, series)" by (cases c)
  from Cons.prems have "idx < length series" unfolding c by simp
  moreover from Cons have "row_costs costs idx
      = Inr (map (\<lambda>series. series ! idx) (map snd costs), {})" by simp
  ultimately show ?case unfolding c by (simp add: getitem_in_range then_np_Inr)
qed

lemma sample_row_in_range:
  assumes "idx < length sweep" and "\<forall>series\<in>set (map snd costs). length series = length sweep"
  shows "sample_row sweep costs idx
         = Inr ((sweep ! idx, map (\<lambda>series. series ! idx) (map snd costs)), {})"
proof -
  have "\<forall>series\<in>set (map snd costs). idx < length series" using assms by simp
  then show ?thesis
    using assms(1) by (simp add: sample_row_def getitem_in_range row_costs_in_range then_np_Inr)
qed

text \<open>
  The rows of the guarded sample loop: one row for each representative size inside the
  sweep's range, in order, taken at the nearest index; nothing raises.
\<close>

lemma sample_rows_Fin:
  assumes "rs \<noteq> []" and "\<forall>series\<in>set (map snd costs). length series = length rs"
  shows "\<exists>rows w. sample_rows (map Fin rs) costs (map Fin ps) = Inr (rows, w)
           \<and> list_all2 (\<lambda>p row. \<exists>k w'. nearest_index (map Fin rs) (Fin p) = Inr (k, w')
                  \<and> k < length rs
                  \<and> row = (Fin (rs ! k), map (\<lambda>series. series ! k) (map snd costs)))
                (filter (\<lambda>p. Min (set rs) \<le> p \<and> p \<le> Max (set rs)) ps) rows"
proof (induction ps)
  case Nil
  then show ?case by simp
next
  case (Cons p ps)
  then obtain rows w where rows: "sample_rows (map Fin rs) costs (map Fin ps) = Inr (rows, w)"
    and all: "list_all2 (\<lambda>p row. \<exists>k w'. nearest_index (map Fin rs) (Fin p) = Inr (k, w')
                  \<and> k < length rs
                  \<and> row = (Fin (rs ! k), map (\<lambda>series. series ! k) (map snd costs)))
                (filter (\<lambda>p. Min (set rs) \<le> p \<and> p \<le> Max (set rs)) ps) rows"
    by blast
  have series: "\<forall>series\<in>set (map snd costs). length series = length (map Fin rs)"
    using assms(2) by simp
  show ?case
  proof (cases "Min (set rs) \<le> p \<and> p \<le> Max (set rs)")
    case True
    with sample_index_computed [OF assms(1), of p] obtain k wk where
      k: "sample_index (map Fin rs) (Fin p) = Inr (Some k, wk)"
        "nearest_index (map Fin rs) (Fin p) = Inr (k, wk)" "k < length rs" by blast
    have row: "sample_row (map Fin rs) costs k
               = Inr ((Fin (rs ! k), map (\<lambda>series. series ! k) (map snd costs)), {})"
      using sample_row_in_range [of k "map Fin rs" costs] k(3) series by simp
    have "sample_rows (map Fin rs) costs (map Fin (p # ps))
          = Inr ((Fin (rs ! k), map (\<lambda>series. series ! k) (map snd costs)) # rows, wk \<union> w)"
      by (simp add: k(1) then_np_Inr row rows)
    moreover have "filter (\<lambda>p. Min (set rs) \<le> p \<and> p \<le> Max (set rs)) (p # ps)
                   = p # filter (\<lambda>p. Min (set rs) \<le> p \<and> p \<le> Max (set rs)) ps"
      using True by simp
    moreover have "\<exists>j w'. nearest_index (map Fin rs) (Fin p) = Inr (j, w') \<and> j < length rs
        \<and> (Fin (rs ! k), map (\<lambda>series. series ! k) (map snd costs))
            = (Fin (rs ! j), map (\<lambda>series. series ! j) (map snd costs))"
      using k(2,3) by blast
    ultimately show ?thesis using all
      by (intro exI [of _ "(Fin (rs ! k), map (\<lambda>series. series ! k) (map snd costs)) # rows"]
          exI [of _ "wk \<union> w"])
        (simp only: list_all2_Cons simp_thms)
  next
    case False
    then have "p < Min (set rs) \<or> Max (set rs) < p" by auto
    with sample_index_computed [OF assms(1), of p]
    have "sample_index (map Fin rs) (Fin p) = Inr (None, {})" by blast
    then have "sample_rows (map Fin rs) costs (map Fin (p # ps)) = Inr (rows, w)"
      by (simp add: then_np_Inr rows)
    moreover have "filter (\<lambda>p. Min (set rs) \<le> p \<and> p \<le> Max (set rs)) (p # ps)
                   = filter (\<lambda>p. Min (set rs) \<le> p \<and> p \<le> Max (set rs)) ps"
      using False by simp
    ultimately show ?thesis using all
      by (intro exI [of _ rows] exI [of _ w]) (simp only: simp_thms)
  qed
qed

text \<open>The rows of the unguarded sample loop: one row for every representative size.\<close>

lemma nearest_rows_Fin:
  assumes "rs \<noteq> []" and "\<forall>series\<in>set (map snd costs). length series = length rs"
  shows "\<exists>rows w. nearest_rows (map Fin rs) costs (map Fin ps) = Inr (rows, w)
           \<and> list_all2 (\<lambda>p row. \<exists>k w'. nearest_index (map Fin rs) (Fin p) = Inr (k, w')
                  \<and> k < length rs
                  \<and> row = (Fin (rs ! k), map (\<lambda>series. series ! k) (map snd costs)))
                ps rows"
proof (induction ps)
  case Nil
  then show ?case by simp
next
  case (Cons p ps)
  then obtain rows w where rows: "nearest_rows (map Fin rs) costs (map Fin ps) = Inr (rows, w)"
    and all: "list_all2 (\<lambda>p row. \<exists>k w'. nearest_index (map Fin rs) (Fin p) = Inr (k, w')
                  \<and> k < length rs
                  \<and> row = (Fin (rs ! k), map (\<lambda>series. series ! k) (map snd costs)))
                ps rows"
    by blast
  have series: "\<forall>series\<in>set (map snd costs). length series = length (map Fin rs)"
    using assms(2) by simp
  from nearest_index_computed [OF assms(1), of p] obtain k wk where
    k: "nearest_index (map Fin rs) (Fin p) = Inr (k, wk)" "k < length rs" by blast
  have row: "sample_row (map Fin rs) costs k
             = Inr ((Fin (rs ! k), map (\<lambda>series. series ! k) (map snd costs)), {})"
    using sample_row_in_range [of k "map Fin rs" costs] k(2) series by simp
  have "nearest_rows (map Fin rs) costs (map Fin (p # ps))
        = Inr ((Fin (rs ! k), map (\<lambda>series. series ! k) (map snd costs)) # rows, wk \<union> w)"
    by (simp add: k(1) then_np_Inr row rows)
  moreover have "\<exists>j w'. nearest_index (map Fin rs) (Fin p) = Inr (j, w') \<and> j < length rs
        \<and> (Fin (rs ! k), map (\<lambda>series. series ! k) (map snd costs))
            = (Fin (rs ! j), map (\<lambda>series. series ! j) (map snd costs))"
    using k by blast
  ultimately show ?case using all
    by (intro exI [of _ "(Fin (rs ! k), map (\<lambda>series. series ! k) (map snd costs)) # rows"]
        exI [of _ "wk \<union> w"])
      (simp only: list_all2_Cons simp_thms)
qed

text \<open>
  A sweep of at least two points from a lower to an upper exponent starts at ten to the
  lower one, ends at ten to the upper one, and stays between them.
\<close>

lemma logspace_range:
  assumes "start \<le> stop" and "2 \<le> num"
  shows "\<exists>rs. logspace start stop num = Inr (map Fin rs, {}) \<and> length rs = nat num
           \<and> rs \<noteq> [] \<and> Min (set rs) = 10 powr start \<and> Max (set rs) = 10 powr stop"
proof -
  define k where "k = nat num"
  have k: "2 \<le> k" using assms(2) by (simp add: k_def)
  define g where "g = (\<lambda>i. 10 powr (start + real i * ((stop - start) / real (k - 1))))"
  define rs where "rs = map g [0..<k]"
  have step: "0 \<le> (stop - start) / real (k - 1)" using assms(1) by simp
  have g0: "g 0 = 10 powr start" by (simp add: g_def)
  have "real (k - 1) * ((stop - start) / real (k - 1)) = stop - start" using k by simp
  then have gl: "g (k - 1) = 10 powr stop" by (simp add: g_def)
  have lo: "g 0 \<le> g i" for i
  proof -
    have "0 \<le> real i * ((stop - start) / real (k - 1))"
      using step by (intro mult_nonneg_nonneg) simp_all
    then show ?thesis by (simp add: g_def)
  qed
  have hi: "g i \<le> g (k - 1)" if "i < k" for i
  proof -
    have "real i \<le> real (k - 1)" using that by simp
    then have "real i * ((stop - start) / real (k - 1))
               \<le> real (k - 1) * ((stop - start) / real (k - 1))"
      using step by (rule mult_right_mono)
    then show ?thesis by (simp add: g_def)
  qed
  have set: "set rs = g ` {0..<k}" by (simp add: rs_def)
  have "Min (set rs) = g 0"
  proof (rule Min_eqI)
    show "finite (set rs)" by simp
    show "g 0 \<le> y" if "y \<in> set rs" for y using that lo unfolding set by auto
    show "g 0 \<in> set rs" unfolding set using k by auto
  qed
  moreover have "Max (set rs) = g (k - 1)"
  proof (rule Max_eqI)
    show "finite (set rs)" by simp
    show "y \<le> g (k - 1)" if "y \<in> set rs" for y using that hi unfolding set by auto
    show "g (k - 1) \<in> set rs" unfolding set using k by auto
  qed
  moreover have "logspace start stop num = Inr (map Fin rs, {})"
    using assms(2) logspace_values [of num start stop]
    by (simp add: rs_def g_def k_def comp_def)
  moreover have "length rs = nat num" "rs \<noteq> []" using k by (auto simp: rs_def k_def)
  ultimately show ?thesis using g0 gl by metis
qed

text \<open>The sweep of each scenario is the sweep its script names.\<close>

lemma scenario_sweep_names:
  "scenario_sweep Sparse_graphs = n_values" "scenario_sweep Dense_graphs = n_values_dense"
  "scenario_sweep Sparse_short_path = n_vals" "scenario_sweep Sparse_long_path = n_vals"
  "scenario_sweep Dense_short_path = n_vals_dense" "scenario_sweep Dense_long_path = n_vals_dense"
  by (simp_all add: scenario_sweep_def n_values_def n_values_dense_def n_vals_def
      n_vals_dense_def)

lemma sweep_args_cases:
  "sweep_args s = (3, 9, 100) \<or> sweep_args s = (3, 5, 100)"
  by (cases s) simp_all

lemma scenario_sweep_range:
  "\<exists>rs. scenario_sweep s = Inr (map Fin rs, {}) \<and> length rs = 100 \<and> rs \<noteq> []
        \<and> Min (set rs) = 10 ^ 3
        \<and> Max (set rs) = (if fst (snd (sweep_args s)) = 9 then 10 ^ 9 else 10 ^ 5)"
proof -
  have p3: "(10::real) powr 3 = 10 ^ 3" and p5: "(10::real) powr 5 = 10 ^ 5"
    and p9: "(10::real) powr 9 = 10 ^ 9"
    using powr_realpow [of "10::real" 3] powr_realpow [of "10::real" 5]
      powr_realpow [of "10::real" 9] by simp_all
  from sweep_args_cases [of s] show ?thesis
  proof
    assume a: "sweep_args s = (3, 9, 100)"
    from logspace_range [of 3 9 100] obtain rs where
      "logspace 3 9 100 = Inr (map Fin rs, {})" "length rs = 100" "rs \<noteq> []"
      "Min (set rs) = 10 powr 3" "Max (set rs) = 10 powr 9" by auto
    then show ?thesis unfolding scenario_sweep_def a p3 p9 by auto
  next
    assume a: "sweep_args s = (3, 5, 100)"
    from logspace_range [of 3 5 100] obtain rs where
      "logspace 3 5 100 = Inr (map Fin rs, {})" "length rs = 100" "rs \<noteq> []"
      "Min (set rs) = 10 powr 3" "Max (set rs) = 10 powr 5" by auto
    then show ?thesis unfolding scenario_sweep_def a p3 p5 by auto
  qed
qed

text \<open>
  The sample loops of \<^verbatim>\<open>run_analysis.py\<close> have no range guard and need none: their
  representative sizes lie between the first and the last value of their sweep.
\<close>

lemma run_analysis_points_in_range:
  assumes "script_of s = Run_analysis"
  shows "\<exists>rs. scenario_sweep s = Inr (map Fin rs, {})
           \<and> (\<forall>p\<in>set (n_points s). Min (set rs) \<le> p \<and> p \<le> Max (set rs))"
proof -
  from scenario_sweep_range [of s] obtain rs where
    sweep: "scenario_sweep s = Inr (map Fin rs, {})" and mn: "Min (set rs) = 10 ^ 3"
    and mx: "Max (set rs) = (if fst (snd (sweep_args s)) = 9 then 10 ^ 9 else 10 ^ 5)"
    by blast
  have "\<forall>p\<in>set (n_points s). Min (set rs) \<le> p \<and> p \<le> Max (set rs)"
    unfolding mn mx using assms by (cases s) simp_all
  with sweep show ?thesis by blast
qed

lemma m_sparse_Fin': "m_sparse (map Fin ns) = Inr (map Fin (map (\<lambda>x. 10 * x) ns), {})"
  using m_sparse_Fin [of ns] by (simp add: comp_def)

lemma l_long_Fin': "l_long (map Fin ns) = Inr (map Fin (map (\<lambda>x. x / 10) ns), {})"
  using l_long_Fin [of ns] by (simp add: comp_def)

lemma np_square_Fin: "np_square (map Fin ns) = Inr (map Fin (map (\<lambda>x. x * x) ns), {})"
  unfolding np_square_def
  using ufunc1_Fin [of ns "\<lambda>x. fmul x x" "\<lambda>x. x * x" "\<lambda>x. fmul_fpe x x"]
  by (simp add: fmul_fpe_def comp_def)

lemma m_dense_Fin: "m_dense (map Fin ns) = Inr (map Fin (map (\<lambda>x. x * x / 100) ns), {})"
  unfolding m_dense_def np_square_Fin then_np_Inr
  using ufunc1_Fin [of "map (\<lambda>x. x * x) ns" "fdiv_pos 100" "\<lambda>x. x / 100" "\<lambda>x. {}"]
  by (simp add: comp_def)

lemma l_short_Fin:
  assumes "\<forall>x\<in>set ns. 0 < x"
  shows "l_short (map Fin ns) = Inr (map Fin (map (\<lambda>x. log 2 x * log 2 x) ns), {})"
proof -
  have "np_log2 (map Fin ns) = Inr (map Fin (map (log 2) ns), {})"
    using np_log2_Fin [OF assms] by (simp add: comp_def)
  then show ?thesis
    unfolding l_short_def then_np_Inr using np_square_Fin [of "map (log 2) ns"]
    by (simp add: then_np_Inr comp_def)
qed

lemma scenario_inputs:
  assumes "\<forall>x\<in>set ns. 1 \<le> x"
  shows "\<exists>m. m_func_of s (map Fin ns) = Inr (m, {}) \<and> length m = length ns
           \<and> list_all (fin_ge 0) m"
    and "case l_func_of s of None \<Rightarrow> True
         | Some f \<Rightarrow> \<exists>l wl. f (map Fin ns) = Inr (l, wl) \<and> length l = length (map Fin ns)
                        \<and> list_all (fin_ge 0) l"
proof -
  have pos: "\<forall>x\<in>set ns. 0 < x" and nn: "\<forall>x\<in>set ns. 0 \<le> x" using assms by force+
  have sparse: "\<exists>m. m_sparse (map Fin ns) = Inr (m, {}) \<and> length m = length ns
           \<and> list_all (fin_ge 0) m"
    using nn by (simp add: m_sparse_Fin' list_all_iff)
  have dense: "\<exists>m. m_dense (map Fin ns) = Inr (m, {}) \<and> length m = length ns
           \<and> list_all (fin_ge 0) m"
    by (simp add: m_dense_Fin list_all_iff)
  show "\<exists>m. m_func_of s (map Fin ns) = Inr (m, {}) \<and> length m = length ns
           \<and> list_all (fin_ge 0) m"
    using sparse dense by (cases s) simp_all
  have short: "\<exists>l wl. l_short (map Fin ns) = Inr (l, wl) \<and> length l = length (map Fin ns)
                        \<and> list_all (fin_ge 0) l"
    by (simp add: l_short_Fin [OF pos] list_all_iff)
  have long: "\<exists>l wl. l_long (map Fin ns) = Inr (l, wl) \<and> length l = length (map Fin ns)
                        \<and> list_all (fin_ge 0) l"
    using nn by (simp add: l_long_Fin' list_all_iff)
  show "case l_func_of s of None \<Rightarrow> True
         | Some f \<Rightarrow> \<exists>l wl. f (map Fin ns) = Inr (l, wl) \<and> length l = length (map Fin ns)
                        \<and> list_all (fin_ge 0) l"
    using short long by (cases s) simp_all
qed


text \<open>
  Every scenario the two scripts run returns: the cost series are named as the source
  names them, each has the hundred values of the sweep, all finite and non-negative; the
  sample table has three rows, and one row (for \<open>10\<^sup>4\<close>) in the two dense scenarios of
  \<^verbatim>\<open>run_comprehensive_analysis.py\<close>, whose sweep ends at \<open>10\<^sup>5\<close>.
\<close>

lemma scenario_run_result:
  "\<exists>costs rows w. scenario_run s = Inr ((costs, rows), w)
      \<and> map fst costs = [''Dijkstra'', ''Duan et al.'', ''Grover SSSP'']
            @ (case l_func_of s of None \<Rightarrow> [] | Some f \<Rightarrow> [''Wesolowski et al.''])
      \<and> list_all (\<lambda>series. length series = 100 \<and> list_all (fin_ge 0) series) (map snd costs)
      \<and> length rows = (if s = Dense_short_path \<or> s = Dense_long_path then 1 else 3)"
proof -
  from scenario_sweep_range [of s] obtain rs where
    sweep: "scenario_sweep s = Inr (map Fin rs, {})" and len: "length rs = 100"
    and ne: "rs \<noteq> []" and mn: "Min (set rs) = 10 ^ 3"
    and mx: "Max (set rs) = (if fst (snd (sweep_args s)) = 9 then 10 ^ 9 else 10 ^ 5)"
    by blast
  have ge: "\<forall>x\<in>set rs. 1 \<le> x"
  proof
    fix x assume "x \<in> set rs"
    then have "Min (set rs) \<le> x" by simp
    then show "1 \<le> x" unfolding mn by simp
  qed
  have dom: "list_all (fin_ge 1) (map Fin rs)" using ge by (simp add: list_all_iff)
  from scenario_inputs(1) [OF ge, of s] obtain m where
    m: "m_func_of s (map Fin rs) = Inr (m, {})" "length m = length (map Fin rs)"
      "list_all (fin_ge 0) m" by auto
  from scenario_costs_Fin [of "map Fin rs" "m_func_of s" m "{}" "l_func_of s",
      OF dom m scenario_inputs(2) [OF ge, of s]]
  obtain costs w where c: "scenario_costs (map Fin rs) (m_func_of s) (l_func_of s) = Inr (costs, w)"
    "map fst costs = [''Dijkstra'', ''Duan et al.'', ''Grover SSSP'']
          @ (case l_func_of s of None \<Rightarrow> [] | Some f \<Rightarrow> [''Wesolowski et al.''])"
    "list_all (\<lambda>series. length series = length (map Fin rs) \<and> list_all (fin_ge 0) series)
       (map snd costs)" by blast
  have series: "\<forall>series\<in>set (map snd costs). length series = length rs"
    using c(3) by (simp add: list_all_iff)
  have ok: "list_all (\<lambda>series. length series = 100 \<and> list_all (fin_ge 0) series) (map snd costs)"
    using c(3) len by simp
  show ?thesis
  proof (cases "script_of s")
    case Run_analysis
    then have none: "l_func_of s = None" by (cases s) simp_all
    have "\<exists>w'. cost_dict (map Fin rs) m = Inr (costs, w')"
      using c(1)
      by (auto simp: scenario_costs_def m(1) none then_np_def split: sum.splits prod.splits)
    then obtain w' where dict: "cost_dict (map Fin rs) m = Inr (costs, w')" by blast
    from nearest_rows_Fin [OF ne series, of "n_points s"] obtain rows wr where
      rows: "nearest_rows (map Fin rs) costs (map Fin (n_points s)) = Inr (rows, wr)"
        "length rows = length (n_points s)"
      by (auto dest: list_all2_lengthD)
    have "scenario_run s = Inr ((costs, rows), w' \<union> wr)"
      by (simp add: scenario_run_def sweep then_np_Inr Run_analysis m(1) dict rows(1))
    moreover have "length rows = 3" using rows(2) Run_analysis by (cases s) simp_all
    moreover have "\<not> (s = Dense_short_path \<or> s = Dense_long_path)"
      using Run_analysis by (cases s) simp_all
    ultimately show ?thesis using c(2) ok by auto
  next
    case Run_comprehensive_analysis
    from sample_rows_Fin [OF ne series, of "[10 ^ 4, 10 ^ 6, 10 ^ 8]"] obtain rows wr where
      rows: "sample_rows (map Fin rs) costs [Fin (10 ^ 4), Fin (10 ^ 6), Fin (10 ^ 8)]
             = Inr (rows, wr)"
        "length rows = length (filter (\<lambda>p. Min (set rs) \<le> p \<and> p \<le> Max (set rs))
             [10 ^ 4, 10 ^ 6, 10 ^ 8])"
      by (auto dest: list_all2_lengthD)
    have "scenario_run s = Inr ((costs, rows), w \<union> wr)"
      by (simp only: scenario_run_def sweep then_np_Inr Run_comprehensive_analysis
          run_and_plot_scenario_def c(1) rows(1) script.case sum.case prod.case
          Un_empty_left Un_empty_right)
    moreover have "length rows = (if s = Dense_short_path \<or> s = Dense_long_path then 1 else 3)"
      unfolding rows(2) mn mx using Run_comprehensive_analysis by (cases s) simp_all
    ultimately show ?thesis using c(2) ok by auto
  qed
qed

theorem scenario_costs_series_witness:
  "\<exists>sweep costs w. scenario_sweep Sparse_short_path = Inr (sweep, {}) \<and> length sweep = 100
      \<and> scenario_costs sweep m_sparse (Some l_short) = Inr (costs, w)
      \<and> map fst costs = [''Dijkstra'', ''Duan et al.'', ''Grover SSSP'', ''Wesolowski et al.'']
      \<and> list_all (\<lambda>series. length series = 100 \<and> list_all (fin_ge 0) series) (map snd costs)"
proof -
  from scenario_sweep_range [of Sparse_short_path] obtain rs where
    sweep: "scenario_sweep Sparse_short_path = Inr (map Fin rs, {})" and len: "length rs = 100"
    and mn: "Min (set rs) = 10 ^ 3" by blast
  have ge: "\<forall>x\<in>set rs. 1 \<le> x"
  proof
    fix x assume "x \<in> set rs"
    then have "Min (set rs) \<le> x" by simp
    then show "1 \<le> x" unfolding mn by simp
  qed
  have dom: "list_all (fin_ge 1) (map Fin rs)" using ge by (simp add: list_all_iff)
  from scenario_inputs(1) [OF ge, of Sparse_short_path] obtain m where
    m: "m_sparse (map Fin rs) = Inr (m, {})" "length m = length (map Fin rs)"
      "list_all (fin_ge 0) m" by auto
  have l: "case Some l_short of None \<Rightarrow> True
         | Some f \<Rightarrow> \<exists>l wl. f (map Fin rs) = Inr (l, wl) \<and> length l = length (map Fin rs)
                        \<and> list_all (fin_ge 0) l"
    using scenario_inputs(2) [OF ge, of Sparse_short_path] by simp
  from scenario_costs_series [of "map Fin rs" m_sparse m "{}" "Some l_short", OF dom m l]
  obtain costs w where "scenario_costs (map Fin rs) m_sparse (Some l_short) = Inr (costs, w)"
    "map fst costs = [''Dijkstra'', ''Duan et al.'', ''Grover SSSP'', ''Wesolowski et al.'']"
    "list_all (\<lambda>series. length series = length (map Fin rs) \<and> list_all (fin_ge 0) series)
       (map snd costs)" by auto
  with sweep len show ?thesis by auto
qed

section \<open>The cost functions do not write to their arguments\<close>

lemma st_new_frame:
  "nxt s \<le> nxt (snd (st_new c s)) \<and> (\<forall>a<nxt s. arrays (snd (st_new c s)) a = arrays s a)
   \<and> ignored (snd (st_new c s)) = ignored s"
  by (auto simp: st_new_def split: sum.splits)

lemma st_bind_frame:
  assumes c: "\<And>s. nxt s \<le> nxt (snd (c s)) \<and> (\<forall>a<nxt s. arrays (snd (c s)) a = arrays s a)"
    and f: "\<And>v s. nxt s \<le> nxt (snd (f v s)) \<and> (\<forall>a<nxt s. arrays (snd (f v s)) a = arrays s a)"
  shows "nxt s \<le> nxt (snd (st_bind c f s)) \<and> (\<forall>a<nxt s. arrays (snd (st_bind c f s)) a = arrays s a)"
proof (cases "c s")
  case (Pair r s1)
  have c1: "nxt s \<le> nxt s1" "\<forall>a<nxt s. arrays s1 a = arrays s a"
    using c [of s] Pair by simp_all
  show ?thesis
  proof (cases r)
    case (Inl e)
    then show ?thesis using Pair c1 by (simp add: st_bind_def)
  next
    case (Inr v)
    have "nxt s1 \<le> nxt (snd (f v s1))" "\<forall>a<nxt s1. arrays (snd (f v s1)) a = arrays s1 a"
      using f [of s1 v] by simp_all
    then show ?thesis using Pair Inr c1 by (auto simp: st_bind_def)
  qed
qed

lemma st_ufunc1_frame:
  "nxt s \<le> nxt (snd (st_ufunc1 f a s)) \<and> (\<forall>b<nxt s. arrays (snd (st_ufunc1 f a s)) b = arrays s b)"
  unfolding st_ufunc1_def using st_new_frame by blast

lemma st_ufunc2_frame:
  "nxt s \<le> nxt (snd (st_ufunc2 f a b s)) \<and> (\<forall>c<nxt s. arrays (snd (st_ufunc2 f a b s)) c = arrays s c)"
  unfolding st_ufunc2_def using st_new_frame by blast

lemma st_cost_dijkstra_frame:
  "nxt s \<le> nxt (snd (st_cost_dijkstra n m s))
   \<and> (\<forall>a<nxt s. arrays (snd (st_cost_dijkstra n m s)) a = arrays s a)"
  unfolding st_cost_dijkstra_def
  by (intro st_bind_frame st_ufunc1_frame st_ufunc2_frame)

lemma st_cost_quantum_grover_frame:
  "nxt s \<le> nxt (snd (st_cost_quantum_grover n m s))
   \<and> (\<forall>a<nxt s. arrays (snd (st_cost_quantum_grover n m s)) a = arrays s a)"
  unfolding st_cost_quantum_grover_def
  by (intro st_bind_frame st_ufunc1_frame st_ufunc2_frame)

lemma st_cost_quantum_wesolowski_frame:
  "nxt s \<le> nxt (snd (st_cost_quantum_wesolowski n m l s))
   \<and> (\<forall>a<nxt s. arrays (snd (st_cost_quantum_wesolowski n m l s)) a = arrays s a)"
  unfolding st_cost_quantum_wesolowski_def
  by (intro st_bind_frame st_ufunc1_frame st_ufunc2_frame)

text \<open>The one in-place write goes to the array that \<open>np.log2\<close> has just allocated.\<close>

lemma st_log_val_frame:
  "nxt s \<le> nxt (snd (st_bind (st_ufunc1 np_log2 n) (\<lambda>log_val. st_bind (st_zero_neginf log_val) (k log_val)) s))
   \<and> (\<forall>a<nxt s. arrays (snd (st_bind (st_ufunc1 np_log2 n) (\<lambda>log_val. st_bind (st_zero_neginf log_val) (k log_val)) s)) a = arrays s a)"
  if k: "\<And>lv v s. nxt s \<le> nxt (snd (k lv v s)) \<and> (\<forall>a<nxt s. arrays (snd (k lv v s)) a = arrays s a)"
proof -
  obtain xs w where lg: "np_log2 (arrays s n) = Inr (xs, w)"
    by (simp add: np_log2_def ufunc1_def)
  define s1 where "s1 = s\<lparr>arrays := (arrays s)(nxt s := xs), nxt := Suc (nxt s),
             warned := warned s \<union> (w - ignored s)\<rparr>"
  define s2 where "s2 = s1\<lparr>arrays := (arrays s1)(nxt s := setitem_mask (arrays s1 (nxt s))
             (np_isneginf (arrays s1 (nxt s))) (Fin 0))\<rparr>"
  have run: "st_bind (st_ufunc1 np_log2 n) (\<lambda>log_val. st_bind (st_zero_neginf log_val) (k log_val)) s
             = k (nxt s) () s2"
    by (simp add: st_bind_def st_ufunc1_def st_new_def lg st_zero_neginf_def s1_def s2_def)
  have "nxt s \<le> nxt s2" "\<forall>a<nxt s. arrays s2 a = arrays s a"
    by (simp_all add: s1_def s2_def)
  moreover have "nxt s2 \<le> nxt (snd (k (nxt s) () s2))"
    "\<forall>a<nxt s2. arrays (snd (k (nxt s) () s2)) a = arrays s2 a"
    using k [of s2 "nxt s" "()"] by simp_all
  ultimately show ?thesis unfolding run by auto
qed

lemma st_cost_duan_et_al_frame:
  "nxt s \<le> nxt (snd (st_cost_duan_et_al n m s))
   \<and> (\<forall>a<nxt s. arrays (snd (st_cost_duan_et_al n m s)) a = arrays s a)"
proof -
  define body where "body = st_bind (st_ufunc1 np_log2 n) (\<lambda>log_val.
        st_bind (st_zero_neginf log_val) (\<lambda>_.
        st_bind (st_ufunc1 np_pow_two_thirds log_val) (\<lambda>p.
        st_ufunc2 np_multiply m p)))"
  have b: "nxt t \<le> nxt (snd (body t)) \<and> (\<forall>a<nxt t. arrays (snd (body t)) a = arrays t a)" for t
    unfolding body_def
    by (rule st_log_val_frame [where k = "\<lambda>log_val _. st_bind (st_ufunc1 np_pow_two_thirds log_val)
          (\<lambda>p. st_ufunc2 np_multiply m p)"])
      (intro st_bind_frame st_ufunc1_frame st_ufunc2_frame)
  have "st_cost_duan_et_al n m s
        = (case body (s\<lparr>ignored := ignored s \<union> {Divide, Invalid}\<rparr>) of
             (r, s') \<Rightarrow> (r, s'\<lparr>ignored := ignored s\<rparr>))"
    by (simp add: st_cost_duan_et_al_def st_errstate_def body_def)
  then show ?thesis
    using b [of "s\<lparr>ignored := ignored s \<union> {Divide, Invalid}\<rparr>"]
    by (auto split: prod.splits)
qed

text \<open>
  The functions on the store compute what the functions on values compute: the same
  exception, or a result array with the same contents and the same warnings (those not
  ignored by the caller's error state).
\<close>

lemma st_cost_dijkstra_refines:
  assumes "n < nxt s" and "m < nxt s"
  shows "case cost_dijkstra (arrays s n) (arrays s m) of
           Inl e \<Rightarrow> fst (st_cost_dijkstra n m s) = Inl e
         | Inr (xs, w) \<Rightarrow>
             (\<exists>r. fst (st_cost_dijkstra n m s) = Inr r
                \<and> arrays (snd (st_cost_dijkstra n m s)) r = xs
                \<and> warned (snd (st_cost_dijkstra n m s)) = warned s \<union> (w - ignored s))"
  using assms
  by (auto simp: cost_dijkstra_def st_cost_dijkstra_def st_bind_def st_ufunc1_def
      st_ufunc2_def st_new_def then_np_def np_log2_def ufunc1_def
      split: sum.splits prod.splits)

lemma st_cost_quantum_grover_refines:
  assumes "n < nxt s" and "m < nxt s"
  shows "case cost_quantum_grover (arrays s n) (arrays s m) of
           Inl e \<Rightarrow> fst (st_cost_quantum_grover n m s) = Inl e
         | Inr (xs, w) \<Rightarrow>
             (\<exists>r. fst (st_cost_quantum_grover n m s) = Inr r
                \<and> arrays (snd (st_cost_quantum_grover n m s)) r = xs
                \<and> warned (snd (st_cost_quantum_grover n m s)) = warned s \<union> (w - ignored s))"
  using assms
  by (auto simp: cost_quantum_grover_def st_cost_quantum_grover_def st_bind_def st_ufunc1_def
      st_ufunc2_def st_new_def then_np_def np_sqrt_def ufunc1_def
      split: sum.splits prod.splits)

lemma st_cost_quantum_wesolowski_refines:
  assumes "m < nxt s" and "l < nxt s"
  shows "case cost_quantum_wesolowski (arrays s n) (arrays s m) (arrays s l) of
           Inl e \<Rightarrow> fst (st_cost_quantum_wesolowski n m l s) = Inl e
         | Inr (xs, w) \<Rightarrow>
             (\<exists>r. fst (st_cost_quantum_wesolowski n m l s) = Inr r
                \<and> arrays (snd (st_cost_quantum_wesolowski n m l s)) r = xs
                \<and> warned (snd (st_cost_quantum_wesolowski n m l s)) = warned s \<union> (w - ignored s))"
  using assms
  by (auto simp: cost_quantum_wesolowski_def st_cost_quantum_wesolowski_def st_bind_def
      st_ufunc1_def st_ufunc2_def st_new_def then_np_def np_sqrt_def ufunc1_def
      split: sum.splits prod.splits)

lemma st_cost_duan_et_al_refines:
  assumes "n < nxt s" and "m < nxt s"
  shows "case cost_duan_et_al (arrays s n) (arrays s m) of
           Inl e \<Rightarrow> fst (st_cost_duan_et_al n m s) = Inl e
         | Inr (xs, w) \<Rightarrow>
             (\<exists>r. fst (st_cost_duan_et_al n m s) = Inr r
                \<and> arrays (snd (st_cost_duan_et_al n m s)) r = xs
                \<and> warned (snd (st_cost_duan_et_al n m s)) = warned s \<union> (w - ignored s)
                \<and> ignored (snd (st_cost_duan_et_al n m s)) = ignored s)"
  using assms
  by (auto simp: cost_duan_et_al_def duan_log_val_def st_cost_duan_et_al_def st_errstate_def
      errstate_ignore_def st_zero_neginf_def st_bind_def st_ufunc1_def
      st_ufunc2_def st_new_def then_np_def np_log2_def np_pow_two_thirds_def ufunc1_def
      split: sum.splits prod.splits)

text \<open>
  C10: no cost function changes its argument arrays: after a call of \<open>cost_dijkstra\<close>,
  \<open>cost_duan_et_al\<close>, \<open>cost_quantum_grover\<close> or \<open>cost_quantum_wesolowski\<close>, whether it
  returns or raises, the arrays \<open>n\<close>, \<open>m\<close> and \<open>l\<close> hold what they held before; the
  masked assignment of \<open>cost_duan_et_al\<close> changes no array that existed before the call.
\<close>

theorem cost_functions_leave_inputs:
  assumes "n < nxt s" and "m < nxt s" and "l < nxt s"
  shows "arrays (snd (st_cost_dijkstra n m s)) n = arrays s n
       \<and> arrays (snd (st_cost_dijkstra n m s)) m = arrays s m
       \<and> arrays (snd (st_cost_duan_et_al n m s)) n = arrays s n
       \<and> arrays (snd (st_cost_duan_et_al n m s)) m = arrays s m
       \<and> (\<forall>a<nxt s. arrays (snd (st_cost_duan_et_al n m s)) a = arrays s a)
       \<and> arrays (snd (st_cost_quantum_grover n m s)) n = arrays s n
       \<and> arrays (snd (st_cost_quantum_grover n m s)) m = arrays s m
       \<and> arrays (snd (st_cost_quantum_wesolowski n m l s)) n = arrays s n
       \<and> arrays (snd (st_cost_quantum_wesolowski n m l s)) m = arrays s m
       \<and> arrays (snd (st_cost_quantum_wesolowski n m l s)) l = arrays s l"
  using assms st_cost_dijkstra_frame [of s n m] st_cost_duan_et_al_frame [of s n m]
    st_cost_quantum_grover_frame [of s n m] st_cost_quantum_wesolowski_frame [of s n m l]
  by simp

theorem cost_functions_leave_inputs_witness:
  "arrays (snd (st_cost_dijkstra 0 1
      \<lparr>arrays = (\<lambda>a. [])(0 := [Fin 0, Fin 8], 1 := [Fin 5, Fin 80], 2 := [Fin 1, Fin 2]),
       nxt = 3, warned = {}, ignored = {}\<rparr>)) 0 = [Fin 0, Fin 8]
   \<and> arrays (snd (st_cost_duan_et_al 0 1
      \<lparr>arrays = (\<lambda>a. [])(0 := [Fin 0, Fin 8], 1 := [Fin 5, Fin 80], 2 := [Fin 1, Fin 2]),
       nxt = 3, warned = {}, ignored = {}\<rparr>)) 0 = [Fin 0, Fin 8]
   \<and> arrays (snd (st_cost_duan_et_al 0 1
      \<lparr>arrays = (\<lambda>a. [])(0 := [Fin 0, Fin 8], 1 := [Fin 5, Fin 80], 2 := [Fin 1, Fin 2]),
       nxt = 3, warned = {}, ignored = {}\<rparr>)) 1 = [Fin 5, Fin 80]
   \<and> arrays (snd (st_cost_quantum_grover 0 1
      \<lparr>arrays = (\<lambda>a. [])(0 := [Fin 0, Fin 8], 1 := [Fin 5, Fin 80], 2 := [Fin 1, Fin 2]),
       nxt = 3, warned = {}, ignored = {}\<rparr>)) 1 = [Fin 5, Fin 80]
   \<and> arrays (snd (st_cost_quantum_wesolowski 0 1 2
      \<lparr>arrays = (\<lambda>a. [])(0 := [Fin 0, Fin 8], 1 := [Fin 5, Fin 80], 2 := [Fin 1, Fin 2]),
       nxt = 3, warned = {}, ignored = {}\<rparr>)) 2 = [Fin 1, Fin 2]"
  using cost_functions_leave_inputs [of 0
      "\<lparr>arrays = (\<lambda>a. [])(0 := [Fin 0, Fin 8], 1 := [Fin 5, Fin 80], 2 := [Fin 1, Fin 2]),
        nxt = 3, warned = {}, ignored = {}\<rparr>" 1 2]
  by simp

end
